theory Spec2Isabelle
  imports Complex_Main "HOL-Library.List_Lexorder" "HOL-Library.Char_ord" "HOL-Library.Multiset"
begin

unbundle bit_operations_syntax

section \<open>Data model of \<open>src/provider/model/DesktopWindow.ts\<close>\<close>

text \<open>
  \<open>Point<T>\<close> is an object with the two fields \<open>x\<close> and \<open>y\<close>; \<open>Point\<close> alone is
  \<open>Point<number>\<close>. JavaScript numbers are modelled by \<open>real\<close>: every number that
  occurs in the properties below is a small integer or a half, and \<open>NaN\<close> and rounding
  are outside the model.
\<close>

record 'a Point =
  x :: 'a
  y :: 'a

record ResizeConstraint =
  resizableMin :: bool
  resizableMax :: bool
  minSize :: real
  maxSize :: real

record Rectangle =
  center :: "real Point"
  halfSize :: "real Point"

definition MAX_SAFE_INTEGER :: real where
  "MAX_SAFE_INTEGER = 9007199254740991"

text \<open>
  \<open>EntityState\<close> is read and written through computed keys
  (\<open>this._currentState[property]\<close>), and \<open>Partial<EntityState>\<close> is an object in
  which any of the keys may be missing. Both are therefore maps from the twelve keys of
  the interface to JavaScript values: a full state is a total function, a partial state
  a partial one. A key that is present with the value \<open>undefined\<close> is not
  distinguished from a missing key. The points and constraints inside a state are kept
  by value: the source shares some of these objects between \<open>_currentState\<close>,
  \<open>_applicationState\<close> and \<open>_temporaryState\<close>, but it writes into a shared object
  (\<open>Object.assign\<close> on a field of \<open>_applicationState\<close>) only in a call that also
  replaces the field in \<open>_currentState\<close> and deletes it from \<open>_temporaryState\<close>.
\<close>

datatype key =
  Center | HalfSize | Frame | Hidden | State | Icon | Title | ShowTaskbarIcon
  | ResizeConstraints | Opacity | AlwaysOnTop | Maximizable

datatype val =
  VPoint "real Point"
  | VBool bool
  | VString string
  | VNumber real
  | VConstraints "ResizeConstraint Point"

type_synonym EntityState = "key \<Rightarrow> val"
type_synonym PartialState = "key \<rightharpoonup> val"

definition all_keys :: "key list" where
  "all_keys = [Center, HalfSize, Frame, Hidden, State, Icon, Title, ShowTaskbarIcon,
               ResizeConstraints, Opacity, AlwaysOnTop, Maximizable]"

text \<open>JavaScript's \<open>typeof v === 'object'\<close> and the truth value of \<open>v\<close> in a condition.\<close>

fun is_object :: "val \<Rightarrow> bool" where
  "is_object (VPoint p) = True"
| "is_object (VConstraints c) = True"
| "is_object v = False"

fun truthy :: "val \<Rightarrow> bool" where
  "truthy (VBool b) = b"
| "truthy (VString s) = (s \<noteq> [])"
| "truthy (VNumber n) = (n \<noteq> 0)"
| "truthy v = True"

text \<open>
  Reading a point or a pair of constraints out of a value. The interface types of the
  source exclude any other value under these keys; there the result is unspecified.
\<close>

fun point_of :: "val \<Rightarrow> real Point" where
  "point_of (VPoint p) = p"

fun constraints_of :: "val \<Rightarrow> ResizeConstraint Point" where
  "constraints_of (VConstraints c) = c"

datatype ActionOrigin = APPLICATION | SERVICE | SERVICE_TEMPORARY

datatype LifecycleStage = STARTING | READY | ENDING

type_synonym WindowIdentity = "string \<times> string"

text \<open>
  A native command issued on the wrapped window. Each call returns a promise, and the
  promise is what \<open>_pendingActions\<close> holds; the model keeps the command. The diagnostic
  tags of \<open>_actionTags\<close> are not modelled.
\<close>

record ConstraintOptions =
  resizable :: bool
  left_side :: bool
  right_side :: bool
  top_side :: bool
  bottom_side :: bool
  minWidth :: real
  minHeight :: real
  maxWidth :: "real option"
  maxHeight :: "real option"

record WindowBounds =
  left :: real
  top :: real
  width :: real
  height :: real

datatype action =
  Hide | Show | Restore | Minimize | Maximize
  | SetBounds WindowBounds
  | UpdateConstraints ConstraintOptions
  | UpdateOptions "(key \<times> val) list"
  | BringToFront | SetAsForeground | Close
  | JoinGroup WindowIdentity

datatype error =
  NotReady string
  | SyncFailed string nat
  | NotInTargetGroup
  | NeedTwoWindows
  | NativeError string

text \<open>
  What the caller of an \<open>async\<close> method observes: the promise is already fulfilled,
  it is rejected with an error, or it settles with the native commands it waits for.
\<close>

datatype outcome = Fulfilled | Rejected error | Awaits "action list"

text \<open>
  The fields of the class the properties need. \<open>_snapGroup\<close> and \<open>_prevGroup\<close> are
  references to group objects that are shared between windows; they are addresses into
  a store of groups.
\<close>

record DesktopWindow =
  identity :: WindowIdentity
  currentState_field :: EntityState
  applicationState :: EntityState
  modifiedState :: PartialState
  temporaryState :: PartialState
  snapGroup :: nat
  prevGroup :: "nat option"
  lifecycleStage :: LifecycleStage
  pendingActions :: "action list"

definition id_of :: "WindowIdentity \<Rightarrow> string" where
  "id_of i = fst i @ ''/'' @ snd i"

definition isReady :: "DesktopWindow \<Rightarrow> bool" where
  "isReady w = (lifecycleStage w = READY)"

section \<open>The update pipeline\<close>

text \<open>
  \<open>forEachProperty\<close> comes from \<open>utils/iteration\<close>, which is not among the sources; it
  is taken to call the callback once for every key the object has. Each callback below
  touches the slot of its own key only, so the order of the keys does not matter.
\<close>

definition forEachProperty :: "PartialState \<Rightarrow> (key \<Rightarrow> 's \<Rightarrow> 's) \<Rightarrow> 's \<Rightarrow> 's" where
  "forEachProperty obj callback s =
     fold (\<lambda>k s. if obj k \<noteq> None then callback k s else s) all_keys s"

fun points_differ :: "val \<Rightarrow> val \<Rightarrow> bool" where
  "points_differ (VPoint prevPoint) (VPoint newPoint) =
     (x prevPoint \<noteq> x newPoint \<or> y prevPoint \<noteq> y newPoint)"
| "points_differ a b = (a \<noteq> b)"

definition constraint_differs :: "ResizeConstraint \<Rightarrow> ResizeConstraint \<Rightarrow> bool" where
  "constraint_differs a b =
     (minSize a \<noteq> minSize b \<or> maxSize a \<noteq> maxSize b
      \<or> resizableMin a \<noteq> resizableMin b \<or> resizableMax a \<noteq> resizableMax b)"

fun constraints_differ :: "val \<Rightarrow> val \<Rightarrow> bool" where
  "constraints_differ (VConstraints prevConstraints) (VConstraints newConstraints) =
     (constraint_differs (x prevConstraints) (x newConstraints)
      \<or> constraint_differs (y prevConstraints) (y newConstraints))"
| "constraints_differ a b = (a \<noteq> b)"

definition isModified :: "key \<Rightarrow> PartialState \<Rightarrow> EntityState \<Rightarrow> bool" where
  "isModified k prevState newState =
     (case prevState k of
        None \<Rightarrow> True
      | Some pv \<Rightarrow>
          if k = Center \<or> k = HalfSize then points_differ pv (newState k)
          else if k = ResizeConstraints then constraints_differ pv (newState k)
          else pv \<noteq> newState k)"

text \<open>
  \<open>Object.assign(target, source)\<close> on a point or on a pair of constraints copies the
  fields \<open>x\<close> and \<open>y\<close> of the source into the target.
\<close>

fun object_assign :: "val \<Rightarrow> val \<Rightarrow> val" where
  "object_assign (VPoint t) (VPoint s) = VPoint (t\<lparr>x := x s, y := y s\<rparr>)"
| "object_assign (VConstraints t) (VConstraints s) = VConstraints (t\<lparr>x := x s, y := y s\<rparr>)"
| "object_assign t s = s"

text \<open>The four callbacks of \<open>updateState\<close>, in the order of the source.\<close>

definition note_application_change :: "PartialState \<Rightarrow> key \<Rightarrow> DesktopWindow \<Rightarrow> DesktopWindow" where
  "note_application_change delta property w =
     (if isModified property delta (currentState_field w) then
        (if is_object (the (delta property)) then
           w\<lparr>applicationState := (applicationState w)
                (property := object_assign (applicationState w property) (the (delta property)))\<rparr>
         else w\<lparr>applicationState := (applicationState w)(property := the (delta property))\<rparr>)
      else w)"

definition track_modification :: "PartialState \<Rightarrow> key \<Rightarrow> DesktopWindow \<Rightarrow> DesktopWindow" where
  "track_modification delta property w =
     (if isModified property delta (applicationState w) then
        w\<lparr>modifiedState := (modifiedState w)(property := delta property)\<rparr>
      else w\<lparr>modifiedState := (modifiedState w)(property := None)\<rparr>)"

definition backup_value :: "key \<Rightarrow> DesktopWindow \<Rightarrow> DesktopWindow" where
  "backup_value property w =
     (if temporaryState w property = None then
        w\<lparr>temporaryState := (temporaryState w)(property \<mapsto> currentState_field w property)\<rparr>
      else w)"

definition drop_backup :: "key \<Rightarrow> DesktopWindow \<Rightarrow> DesktopWindow" where
  "drop_backup property w =
     (if temporaryState w property \<noteq> None then
        w\<lparr>temporaryState := (temporaryState w)(property := None)\<rparr>
      else w)"

text \<open>\<open>Object.assign(this._currentState, delta)\<close>.\<close>

definition merge_delta :: "EntityState \<Rightarrow> PartialState \<Rightarrow> EntityState" where
  "merge_delta s delta = (\<lambda>k. case delta k of None \<Rightarrow> s k | Some v \<Rightarrow> v)"

text \<open>
  \<open>checkBounds\<close> and the bounds computed in \<open>updateState\<close> depend on \<open>isWin10()\<close>
  (\<open>snapanddock/utils/platform\<close>, not among the sources), which is a parameter.
\<close>

definition bounds_command :: "bool \<Rightarrow> PartialState \<Rightarrow> EntityState \<Rightarrow> action list" where
  "bounds_command isWin10 delta st =
     (if delta Center \<noteq> None \<or> delta HalfSize \<noteq> None then
        (let newCenter0 = point_of (case delta Center of Some c \<Rightarrow> c | None \<Rightarrow> st Center);
             newHalfSize0 = point_of (case delta HalfSize of Some h \<Rightarrow> h | None \<Rightarrow> st HalfSize);
             newCenter = (if isWin10 \<and> truthy (st Frame)
                          then \<lparr>x = x newCenter0, y = y newCenter0 + 3.5\<rparr> else newCenter0);
             newHalfSize = (if isWin10 \<and> truthy (st Frame)
                            then \<lparr>x = x newHalfSize0 + 7, y = y newHalfSize0 + 3.5\<rparr> else newHalfSize0)
         in [SetBounds \<lparr>left = x newCenter - x newHalfSize, top = y newCenter - y newHalfSize,
                        width = x newHalfSize * 2, height = y newHalfSize * 2\<rparr>])
      else [])"

definition constraints_command :: "PartialState \<Rightarrow> val \<Rightarrow> action list" where
  "constraints_command delta prevConstraints =
     (case delta ResizeConstraints of
        None \<Rightarrow> []
      | Some rcv \<Rightarrow>
          (let rc = constraints_of rcv; prev = constraints_of prevConstraints;
               maxW = (if maxSize (x rc) = MAX_SAFE_INTEGER
                       then (if maxSize (x prev) = MAX_SAFE_INTEGER then None else Some (- 1))
                       else Some (maxSize (x rc)));
               maxH = (if maxSize (y rc) = MAX_SAFE_INTEGER
                       then (if maxSize (y prev) = MAX_SAFE_INTEGER then None else Some (- 1))
                       else Some (maxSize (y rc)))
           in [UpdateConstraints
                 \<lparr>resizable = (resizableMin (x rc) \<or> resizableMax (x rc)
                                \<or> resizableMin (y rc) \<or> resizableMax (y rc)),
                  left_side = resizableMin (x rc), right_side = resizableMax (x rc),
                  top_side = resizableMin (y rc), bottom_side = resizableMax (y rc),
                  minWidth = minSize (x rc), minHeight = minSize (y rc),
                  maxWidth = maxW, maxHeight = maxH\<rparr>]))"

definition state_command :: "PartialState \<Rightarrow> val \<Rightarrow> action list" where
  "state_command delta prevState =
     (case delta State of
        None \<Rightarrow> []
      | Some st \<Rightarrow>
          if st \<noteq> prevState then
            (if st = VString ''normal'' then [Restore]
             else if st = VString ''minimized'' then [Minimize]
             else if st = VString ''maximized'' then [Maximize]
             else [])
          else [])"

definition visibility_command :: "PartialState \<Rightarrow> action list" where
  "visibility_command delta =
     (case delta Hidden of None \<Rightarrow> [] | Some h \<Rightarrow> [if truthy h then Hide else Show])"

text \<open>
  The rest pattern \<open>{center, halfSize, state, hidden, resizeConstraints, ...options}\<close>:
  the keys of the delta that are left, with their values.
\<close>

definition options_of :: "PartialState \<Rightarrow> (key \<times> val) list" where
  "options_of delta =
     map (\<lambda>k. (k, the (delta k)))
       (filter (\<lambda>k. delta k \<noteq> None
                     \<and> k \<notin> {Center, HalfSize, State, Hidden, ResizeConstraints}) all_keys)"

definition options_command :: "PartialState \<Rightarrow> action list" where
  "options_command delta =
     (let options = options_of delta
      in if length options > 0 then [UpdateOptions options] else [])"

definition native_commands :: "bool \<Rightarrow> PartialState \<Rightarrow> val \<Rightarrow> val \<Rightarrow> EntityState \<Rightarrow> action list" where
  "native_commands isWin10 delta prevState prevConstraints st =
     visibility_command delta @ state_command delta prevState
     @ bounds_command isWin10 delta st @ constraints_command delta prevConstraints
     @ options_command delta"

text \<open>\<open>addPendingActions\<close> with an array of actions.\<close>

definition addPendingActions :: "action list \<Rightarrow> DesktopWindow \<Rightarrow> outcome \<times> DesktopWindow" where
  "addPendingActions actions w =
     (let w' = w\<lparr>pendingActions := pendingActions w @ actions\<rparr>
      in if length actions > 1 then (Awaits actions, w')
         else if length actions = 1 then (Awaits [actions ! 0], w')
         else (Fulfilled, w'))"

definition updateState ::
  "bool \<Rightarrow> PartialState \<Rightarrow> ActionOrigin \<Rightarrow> DesktopWindow \<Rightarrow> outcome \<times> DesktopWindow" where
  "updateState isWin10 delta origin w =
     (if origin \<noteq> APPLICATION \<and> \<not> isReady w then (Rejected (NotReady (id_of (identity w))), w)
      else
        let w1 = (if origin = APPLICATION
                  then forEachProperty delta (note_application_change delta) w
                  else forEachProperty delta (track_modification delta) w);
            w2 = (if origin = SERVICE_TEMPORARY
                  then forEachProperty delta backup_value w1
                  else forEachProperty delta drop_backup w1);
            prevState = currentState_field w2 State;
            prevConstraints = currentState_field w2 ResizeConstraints;
            w3 = w2\<lparr>currentState_field := merge_delta (currentState_field w2) delta\<rparr>
        in if origin \<noteq> APPLICATION
           then addPendingActions
                  (native_commands isWin10 delta prevState prevConstraints (currentState_field w3)) w3
           else (Fulfilled, w3))"

definition applyProperties :: "bool \<Rightarrow> PartialState \<Rightarrow> DesktopWindow \<Rightarrow> outcome \<times> DesktopWindow" where
  "applyProperties isWin10 properties w =
     (Fulfilled, snd (updateState isWin10 properties SERVICE w))"

text \<open>
  \<open>applyOverride\<close> compares with \<open>!==\<close>. On a point or on constraints that is a
  comparison of references in the source and of values here; the two agree whenever the
  value changes.
\<close>

definition applyOverride :: "bool \<Rightarrow> key \<Rightarrow> val \<Rightarrow> DesktopWindow \<Rightarrow> outcome \<times> DesktopWindow" where
  "applyOverride isWin10 property v w =
     (if v \<noteq> currentState_field w property
      then updateState isWin10 [property \<mapsto> v] SERVICE_TEMPORARY w
      else (Fulfilled, w))"

text \<open>
  \<open>resetOverride\<close> writes the backed-up value into \<open>_currentState\<close> before it
  calls \<open>updateState\<close>, so the write stays when \<open>updateState\<close> throws.
\<close>

definition resetOverride :: "bool \<Rightarrow> key \<Rightarrow> DesktopWindow \<Rightarrow> outcome \<times> DesktopWindow" where
  "resetOverride isWin10 property w =
     (case temporaryState w property of
        Some v \<Rightarrow>
          updateState isWin10 [property \<mapsto> v] SERVICE
            (w\<lparr>currentState_field := (currentState_field w)(property := v)\<rparr>)
      | None \<Rightarrow> (Fulfilled, w))"

text \<open>
  The state a window has until its real state is known (\<open>createTemporaryState\<close>), and
  the object the constructor builds for an existing window whose initial state is given:
  it is \<open>READY\<close> at once, both states are copies of the initial state, and nothing is
  modified or pending. The constructor puts the window into a group of its own; here the
  group is given, so that a window can be described as it is once it has been grouped.
\<close>

fun createTemporaryState :: EntityState where
  "createTemporaryState Center = VPoint \<lparr>x = 500, y = 300\<rparr>"
| "createTemporaryState HalfSize = VPoint \<lparr>x = 200, y = 100\<rparr>"
| "createTemporaryState Frame = VBool False"
| "createTemporaryState Hidden = VBool False"
| "createTemporaryState State = VString ''normal''"
| "createTemporaryState Icon = VString []"
| "createTemporaryState Title = VString []"
| "createTemporaryState ShowTaskbarIcon = VBool True"
| "createTemporaryState ResizeConstraints = VConstraints
     \<lparr>x = \<lparr>resizableMin = True, resizableMax = True, minSize = 0, maxSize = MAX_SAFE_INTEGER\<rparr>,
      y = \<lparr>resizableMin = True, resizableMax = True, minSize = 0, maxSize = MAX_SAFE_INTEGER\<rparr>\<rparr>"
| "createTemporaryState Opacity = VNumber 1"
| "createTemporaryState AlwaysOnTop = VBool False"
| "createTemporaryState Maximizable = VBool True"

definition existing_window :: "WindowIdentity \<Rightarrow> EntityState \<Rightarrow> nat \<Rightarrow> DesktopWindow" where
  "existing_window ident initialState grp =
     \<lparr>identity = ident, currentState_field = initialState, applicationState = initialState,
      modifiedState = Map.empty, temporaryState = Map.empty, snapGroup = grp, prevGroup = None,
      lifecycleStage = READY, pendingActions = []\<rparr>"

text \<open>
  A run of \<open>applyOverride\<close> calls on one property, each with a value that differs from
  the one the property has at that moment.
\<close>

fun each_changes :: "val \<Rightarrow> val list \<Rightarrow> bool" where
  "each_changes c [] = True"
| "each_changes c (v # vs) = (v \<noteq> c \<and> each_changes v vs)"

fun applyOverrides :: "bool \<Rightarrow> key \<Rightarrow> val list \<Rightarrow> DesktopWindow \<Rightarrow> DesktopWindow" where
  "applyOverrides isWin10 property [] w = w"
| "applyOverrides isWin10 property (v # vs) w =
     applyOverrides isWin10 property vs (snd (applyOverride isWin10 property v w))"

section \<open>The \<open>currentState\<close> getter\<close>

text \<open>
  The getter returns either the stored object or an object it has just built with the
  spread syntax. \<open>DesktopModel.getMonitorByRect\<close> is not among the sources and is a
  parameter.
\<close>

datatype 'a returned = Stored_object 'a | Fresh_copy 'a

definition currentState ::
  "(EntityState \<Rightarrow> Rectangle) \<Rightarrow> DesktopWindow \<Rightarrow> EntityState returned" where
  "currentState getMonitorByRect w =
     (if currentState_field w State = VString ''maximized'' then
        (let currentMonitor = getMonitorByRect (currentState_field w)
         in Fresh_copy ((currentState_field w)
              (Center := VPoint (center currentMonitor),
               HalfSize := VPoint (halfSize currentMonitor))))
      else Stored_object (currentState_field w))"

section \<open>The sync barrier\<close>

text \<open>
  \<open>sync\<close> waits for promises that the rest of the program settles. What a wait ends
  with is given from outside: the \<open>c\<close>-th \<open>await Promise.all(this._pendingActions)\<close>
  either fails with the error of an action that was rejected, or it returns when all the
  awaited actions are fulfilled; \<open>onActionComplete\<close> has removed them by then, and
  the list holds the actions that were queued in the meantime. The function returns what
  the promise of \<open>sync\<close> settles with, and the lists it has awaited, in order.
\<close>

definition MAX_AWAITS :: nat where
  "MAX_AWAITS = 10"

function sync_loop ::
  "(nat \<Rightarrow> error + action list) \<Rightarrow> string \<Rightarrow> nat \<Rightarrow> action list \<Rightarrow> outcome \<times> action list list" where
  "sync_loop waits wid awaitCount pending =
     (if length pending > 0 then
        (if awaitCount + 1 \<le> MAX_AWAITS then
           (case waits (awaitCount + 1) of
              Inl e \<Rightarrow> (Rejected e, [pending])
            | Inr pending' \<Rightarrow>
                (case sync_loop waits wid (awaitCount + 1) pending' of
                   (r, awaited) \<Rightarrow> (r, pending # awaited)))
         else (Rejected (SyncFailed wid (awaitCount + 1)), []))
      else (Fulfilled, []))"
  by pat_completeness auto
termination
  by (relation "measure (\<lambda>(waits, wid, awaitCount, pending). MAX_AWAITS - awaitCount)") auto

definition sync :: "(nat \<Rightarrow> error + action list) \<Rightarrow> DesktopWindow \<Rightarrow> outcome \<times> action list list" where
  "sync waits w = sync_loop waits (id_of (identity w)) 0 (pendingActions w)"

text \<open>An environment in which every wait ends with one new action in the list.\<close>

definition refilling :: "nat \<Rightarrow> error + action list" where
  "refilling c = Inr [BringToFront]"

text \<open>An environment in which the second wait ends with an empty list.\<close>

definition settling :: "nat \<Rightarrow> error + action list" where
  "settling c = (if c = 1 then Inr [Show] else Inr [])"

section \<open>The bounds-transform classifier\<close>

definition MINIMUM_RESIZE_CHANGE :: real where
  "MINIMUM_RESIZE_CHANGE = 2"

definition MINIMUM_MOVE_CHANGE :: real where
  "MINIMUM_MOVE_CHANGE = 2"

definition MOVE :: int where
  "MOVE = push_bit 0 1"

definition RESIZE :: int where
  "RESIZE = push_bit 1 1"

record BoundsChange =
  transformType :: int
  startBounds :: Rectangle

record WindowBoundsEvent = WindowBounds +
  changeType :: int

datatype axis = X | Y

fun along :: "axis \<Rightarrow> 'a Point \<Rightarrow> 'a" where
  "along X p = x p"
| "along Y p = y p"

definition checkBounds :: "bool \<Rightarrow> DesktopWindow \<Rightarrow> 'z WindowBounds_scheme \<Rightarrow> WindowBounds" where
  "checkBounds isWin10 w bounds =
     (if isWin10 \<and> truthy (currentState_field w Frame)
      then \<lparr>left = left bounds + 7, top = top bounds,
            width = width bounds - 14, height = height bounds - 7\<rparr>
      else \<lparr>left = left bounds, top = top bounds, width = width bounds, height = height bounds\<rparr>)"

definition evaluateAxis :: "real Point \<Rightarrow> real Point \<Rightarrow> Rectangle \<Rightarrow> axis \<Rightarrow> int" where
  "evaluateAxis halfSize_now center_now start a =
     (let resize = \<bar>along a halfSize_now - along a (halfSize start)\<bar> * 2 > MINIMUM_RESIZE_CHANGE;
          expectedCenter =
            (if \<not> resize then along a (center start)
             else
               (let sizeChangeSign = sgn (along a halfSize_now - along a (halfSize start));
                    centerChangeSign =
                      (if sgn (along a center_now - along a (center start)) \<noteq> 0
                       then sgn (along a center_now - along a (center start)) else 1);
                    expectedEdgeChanged = sizeChangeSign * centerChangeSign
                in along a (center start)
                   + expectedEdgeChanged * (along a halfSize_now - along a (halfSize start))));
          move = \<bar>expectedCenter - along a center_now\<bar> > MINIMUM_MOVE_CHANGE
      in (if move then MOVE else 0) OR (if resize then RESIZE else 0))"

text \<open>
  The calls on the snap group (\<open>DesktopSnapGroup\<close> is not among the sources) are returned
  as a list. \<open>DesktopModel.displayScaling\<close> is a parameter.
\<close>

datatype group_call = SuspendResizeConstraints | RestoreResizeConstraints

definition updateTransformType ::
  "bool \<Rightarrow> bool \<Rightarrow> DesktopWindow \<Rightarrow> WindowBoundsEvent \<Rightarrow> BoundsChange
     \<Rightarrow> int \<times> BoundsChange \<times> group_call list" where
  "updateTransformType displayScaling isWin10 w event boundsChange =
     (if displayScaling then
        (let prevTransformType = transformType boundsChange;
             start = startBounds boundsChange;
             bounds = checkBounds isWin10 w event;
             halfSize_now = \<lparr>x = width bounds / 2, y = height bounds / 2\<rparr>;
             center_now = \<lparr>x = left bounds + x halfSize_now, y = top bounds + y halfSize_now\<rparr>;
             t1 = prevTransformType OR evaluateAxis halfSize_now center_now start X;
             t2 = t1 OR evaluateAxis halfSize_now center_now start Y;
             newTransformType = (if t2 AND MOVE \<noteq> 0 then MOVE else t2)
         in (newTransformType, boundsChange\<lparr>transformType := newTransformType\<rparr>,
             if newTransformType = MOVE \<and> prevTransformType \<noteq> MOVE then [SuspendResizeConstraints]
             else if newTransformType \<noteq> MOVE \<and> prevTransformType = MOVE then [RestoreResizeConstraints]
             else []))
      else (changeType event + 1, boundsChange, []))"

text \<open>The bounds change and the two samples of the scenario, on an unframed window.\<close>

definition drag_start :: BoundsChange where
  "drag_start = \<lparr>transformType = 0,
                 startBounds = \<lparr>center = \<lparr>x = 100, y = 100\<rparr>, halfSize = \<lparr>x = 50, y = 50\<rparr>\<rparr>\<rparr>"

definition widened_sample :: WindowBoundsEvent where
  "widened_sample = \<lparr>left = 40, top = 50, width = 120, height = 100, changeType = 1\<rparr>"

definition shifted_sample :: WindowBoundsEvent where
  "shifted_sample = \<lparr>left = 53, top = 50, width = 100, height = 100, changeType = 0\<rparr>"

section \<open>Windows, groups and transactions\<close>

text \<open>
  Window objects, group objects and the static list \<open>activeTransactions\<close> are shared and
  mutated in place, so they live in a store. A window object is addressed by its
  identity, a group object by a number, and \<open>next_object\<close> is the next free number, used
  for a new group and to tell transaction objects apart. \<open>DesktopModel.getWindow\<close> is not
  among the sources; it is the lookup of a window object by identity.

  Modelled from the spec: \<open>DesktopSnapGroup\<close> is not among the sources. Of a group object
  the store keeps the array \<open>windows\<close>; a new group has no window; \<open>addWindow\<close>, in the
  words of \<open>setSnapGroup\<close>'s comment, adds the window to the group and removes it from
  its previous group. The getter \<open>length\<close> is a parameter of what reads it.

  Modelled from the spec: \<open>Debounced\<close> is not among the sources either. Its two entry
  points, \<open>call\<close> and \<open>postpone\<close>, are written to a log with the number of the
  transaction they belong to; when the debounced function runs it executes
  \<open>remove_transaction\<close>.
\<close>

datatype native_call =
  LeaveGroup WindowIdentity
  | MergeGroups WindowIdentity WindowIdentity
  | BringToFrontOf WindowIdentity

datatype debounced_call = Call | Postpone

record Transaction =
  object :: nat
  windows :: "WindowIdentity list"

record Desktop =
  window_objects :: "WindowIdentity \<rightharpoonup> DesktopWindow"
  groups :: "nat \<Rightarrow> WindowIdentity list"
  next_object :: nat
  activeTransactions :: "Transaction list"
  debounced_log :: "(nat \<times> debounced_call) list"
  native_log :: "native_call list"

text \<open>
  What the native calls and the waits of \<open>sync\<close> end with is given from outside. An
  asynchronous method is run to its end before the next one starts, and
  \<open>Promise.all\<close> over a list starts every call of the list, in order, and is rejected with
  the first rejection in the order of the list.
\<close>

record Environment =
  waits_of :: "WindowIdentity \<Rightarrow> nat \<Rightarrow> error + action list"
  leaveGroup_error :: "WindowIdentity \<Rightarrow> string option"
  mergeGroups_error :: "WindowIdentity \<Rightarrow> WindowIdentity \<Rightarrow> string option"

fun promise_all :: "('a \<Rightarrow> 's \<Rightarrow> outcome \<times> 's) \<Rightarrow> 'a list \<Rightarrow> 's \<Rightarrow> outcome \<times> 's" where
  "promise_all f [] s = (Fulfilled, s)"
| "promise_all f (a # as) s =
     (case f a s of
        (r, s1) \<Rightarrow>
          (case promise_all f as s1 of
             (rs, s2) \<Rightarrow> (case r of Rejected e \<Rightarrow> (Rejected e, s2) | _ \<Rightarrow> (rs, s2))))"

definition update_window ::
  "WindowIdentity \<Rightarrow> (DesktopWindow \<Rightarrow> DesktopWindow) \<Rightarrow> Desktop \<Rightarrow> Desktop" where
  "update_window this f d =
     (case window_objects d this of
        None \<Rightarrow> d
      | Some w \<Rightarrow> d\<lparr>window_objects := (window_objects d)(this \<mapsto> f w)\<rparr>)"

definition ready :: "Desktop \<Rightarrow> WindowIdentity \<Rightarrow> bool" where
  "ready d this = (case window_objects d this of None \<Rightarrow> False | Some w \<Rightarrow> isReady w)"

text \<open>\<open>sync\<close> on a window of the store: when it is fulfilled, nothing is pending.\<close>

definition sync_window :: "Environment \<Rightarrow> WindowIdentity \<Rightarrow> Desktop \<Rightarrow> outcome \<times> Desktop" where
  "sync_window env this d =
     (case window_objects d this of
        None \<Rightarrow> (Fulfilled, d)
      | Some w \<Rightarrow>
          (case fst (sync (waits_of env this) w) of
             Rejected e \<Rightarrow> (Rejected e, d)
           | _ \<Rightarrow> (Fulfilled, update_window this (\<lambda>w. w\<lparr>pendingActions := []\<rparr>) d)))"

definition unsnap :: "Environment \<Rightarrow> WindowIdentity \<Rightarrow> Desktop \<Rightarrow> outcome \<times> Desktop" where
  "unsnap env this d =
     (if ready d this then
        (case leaveGroup_error env this of
           None \<Rightarrow> (Fulfilled, d\<lparr>native_log := native_log d @ [LeaveGroup this]\<rparr>)
         | Some msg \<Rightarrow> (Rejected (NativeError msg), d\<lparr>native_log := native_log d @ [LeaveGroup this]\<rparr>))
      else (Fulfilled, d))"

definition indexOf :: "'a list \<Rightarrow> 'a \<Rightarrow> int" where
  "indexOf xs a = (if a \<in> set xs then int (length (takeWhile (\<lambda>b. b \<noteq> a) xs)) else - 1)"

definition message_includes :: "string \<Rightarrow> string \<Rightarrow> bool" where
  "message_includes s t = list_ex (\<lambda>n. take (length t) (drop n s) = t) [0 ..< Suc (length s)]"

text \<open>
  The body of \<open>joinGroupPromise\<close> in \<open>snap\<close>. \<open>checkClose\<close> swallows the error of a window
  that is gone and marks the window as \<open>ENDING\<close>; any other error rejects the promise,
  which then stays in \<open>_pendingActions\<close>, as only fulfilled actions are removed.
\<close>

definition bring_group_to_front :: "WindowIdentity \<Rightarrow> Desktop \<Rightarrow> Desktop" where
  "bring_group_to_front this d =
     (case window_objects d this of
        None \<Rightarrow> d
      | Some w \<Rightarrow>
          d\<lparr>native_log := native_log d
               @ map BringToFrontOf (filter (ready d) (groups d (snapGroup w)))\<rparr>)"

definition joinGroup ::
  "Environment \<Rightarrow> WindowIdentity \<Rightarrow> nat \<Rightarrow> WindowIdentity \<Rightarrow> Desktop \<Rightarrow> outcome \<times> Desktop" where
  "joinGroup env this grp other d =
     (case window_objects d this of
        None \<Rightarrow> (Fulfilled, d)
      | Some w \<Rightarrow>
          if isReady w \<and> grp = snapGroup w then
            (case (if ready d other then Some other
                   else find (\<lambda>item. ready d item \<and> item \<noteq> this) (groups d grp)) of
               None \<Rightarrow> (Fulfilled, d)
             | Some target \<Rightarrow>
                 (let d1 = d\<lparr>native_log := native_log d @ [MergeGroups this target]\<rparr>
                  in case mergeGroups_error env this target of
                       None \<Rightarrow> (Fulfilled, bring_group_to_front this d1)
                     | Some msg \<Rightarrow>
                         if message_includes msg ''Could not locate the requested window'' then
                           (Fulfilled,
                            bring_group_to_front this
                              (update_window this (\<lambda>w. w\<lparr>lifecycleStage := ENDING\<rparr>) d1))
                         else
                           (Rejected (NativeError msg),
                            update_window this
                              (\<lambda>w. w\<lparr>pendingActions := pendingActions w @ [JoinGroup target]\<rparr>) d1)))
          else (Fulfilled, d))"

definition snap :: "Environment \<Rightarrow> WindowIdentity \<Rightarrow> Desktop \<Rightarrow> outcome \<times> Desktop" where
  "snap env this d =
     (case window_objects d this of
        None \<Rightarrow> (Fulfilled, d)
      | Some w \<Rightarrow>
          (let grp = snapGroup w;
               ws = groups d grp;
               count = length ws;
               index = indexOf ws this
           in if count \<ge> 2 \<and> index \<ge> 0 \<and> isReady w then
                (let other = ws ! (if index = 0 then 1 else 0)
                 in case promise_all (sync_window env) [this, other] d of
                      (Rejected e, d1) \<Rightarrow> (Rejected e, d1)
                    | (r, d1) \<Rightarrow> joinGroup env this grp other d1)
              else if index = - 1 then (Rejected NotInTargetGroup, d)
              else (Rejected NeedTwoWindows, d)))"

text \<open>
  Modelled from the spec: \<open>DesktopSnapGroup.addWindow\<close> is not among the sources. A
  window that is already in the group is not added again; otherwise it is removed from
  its previous group and appended to the windows of this one.
\<close>

definition addWindow :: "nat \<Rightarrow> WindowIdentity \<Rightarrow> Desktop \<Rightarrow> Desktop" where
  "addWindow grp this d =
     (if this \<in> set (groups d grp) then d
      else
        (let gs = (case window_objects d this of
                     None \<Rightarrow> groups d
                   | Some w \<Rightarrow>
                       (case prevGroup w of
                          None \<Rightarrow> groups d
                        | Some prev \<Rightarrow> (groups d)(prev := removeAll this (groups d prev))))
         in d\<lparr>groups := gs(grp := gs grp @ [this])\<rparr>))"

definition addToSnapGroup :: "nat \<Rightarrow> WindowIdentity \<Rightarrow> Desktop \<Rightarrow> Desktop" where
  "addToSnapGroup grp this d =
     addWindow grp this
       (update_window this (\<lambda>w. w\<lparr>prevGroup := Some (snapGroup w), snapGroup := grp\<rparr>) d)"

definition setSnapGroup :: "Environment \<Rightarrow> nat \<Rightarrow> WindowIdentity \<Rightarrow> Desktop \<Rightarrow> outcome \<times> Desktop" where
  "setSnapGroup env grp this d =
     (case window_objects d this of
        None \<Rightarrow> (Fulfilled, d)
      | Some w \<Rightarrow>
          if grp \<noteq> snapGroup w then
            (let wasSnapped = length (groups d (snapGroup w)) > 1;
                 d1 = addToSnapGroup grp this d
             in case (if wasSnapped then unsnap env this d1 else (Fulfilled, d1)) of
                  (Rejected e, d2) \<Rightarrow> (Rejected e, d2)
                | (r, d2) \<Rightarrow>
                    (case window_objects d2 this of
                       None \<Rightarrow> (Fulfilled, d2)
                     | Some w2 \<Rightarrow>
                         if length (groups d2 (snapGroup w2)) > 1 then snap env this d2
                         else (Fulfilled, d2)))
          else (Fulfilled, d))"

text \<open>
  Modelled from the spec: the constructor of \<open>DesktopSnapGroup\<close> is not among the
  sources. \<open>new DesktopSnapGroup()\<close> gives a group without windows; the function returns
  the number of the new group and the store that has it.
\<close>

definition new_DesktopSnapGroup :: "Desktop \<Rightarrow> nat \<times> Desktop" where
  "new_DesktopSnapGroup d =
     (next_object d, d\<lparr>groups := (groups d)(next_object d := []), next_object := next_object d + 1\<rparr>)"

subsection \<open>\<open>transaction\<close>\<close>

text \<open>The function handed to \<open>Debounced\<close>: the transaction takes itself off the list.\<close>

definition remove_transaction :: "nat \<Rightarrow> Desktop \<Rightarrow> Desktop" where
  "remove_transaction obj d =
     (let indexToRemove = indexOf (map object (activeTransactions d)) obj
      in if indexToRemove \<ge> 0
         then d\<lparr>activeTransactions :=
                  take (nat indexToRemove) (activeTransactions d)
                  @ drop (nat indexToRemove + 1) (activeTransactions d)\<rparr>
         else d)"



subsection \<open>\<open>handleGroupChanged\<close>\<close>

record WindowGroupChangedEvent =
  name :: string
  uuid :: string
  sourceWindowName :: string
  sourceWindowAppUuid :: string
  targetWindowName :: string
  targetWindowAppUuid :: string
  reason :: string
  sourceGroup :: "(string \<times> string) list"
  targetGroup :: "(string \<times> string) list"

text \<open>
  An identity is the pair of \<open>uuid\<close> and \<open>name\<close>, an entry of an event's group the pair of
  \<open>appUuid\<close> and \<open>windowName\<close>. \<open>String.prototype.localeCompare\<close> depends on the locale and
  is a parameter; \<open>Array.prototype.sort\<close> is stable, as the insertion sort here is, and
  \<open>deepEqual\<close> on two arrays of identities is their equality.
\<close>

definition compare_identities ::
  "(string \<Rightarrow> string \<Rightarrow> int) \<Rightarrow> WindowIdentity \<Rightarrow> WindowIdentity \<Rightarrow> int" where
  "compare_identities localeCompare a b =
     (if fst a = fst b then localeCompare (snd a) (snd b) else localeCompare (fst a) (fst b))"

fun insert_sorted :: "('a \<Rightarrow> 'a \<Rightarrow> int) \<Rightarrow> 'a \<Rightarrow> 'a list \<Rightarrow> 'a list" where
  "insert_sorted cmp a [] = [a]"
| "insert_sorted cmp a (b # bs) =
     (if cmp a b \<le> 0 then a # b # bs else b # insert_sorted cmp a bs)"

definition sort_with :: "('a \<Rightarrow> 'a \<Rightarrow> int) \<Rightarrow> 'a list \<Rightarrow> 'a list" where
  "sort_with cmp xs = foldr (insert_sorted cmp) xs []"

definition compareSnapAndEventWindowArrays ::
  "(string \<Rightarrow> string \<Rightarrow> int) \<Rightarrow> WindowIdentity list \<Rightarrow> (string \<times> string) list \<Rightarrow> bool" where
  "compareSnapAndEventWindowArrays localeCompare snapWindows eventWindows =
     (sort_with (compare_identities localeCompare) snapWindows
      = sort_with (compare_identities localeCompare) (map (\<lambda>w. (fst w, snd w)) eventWindows))"

text \<open>
  What makes the sorted comparison independent of the order of the arrays: the comparison
  function is total, transitive, and equates only equal arguments.
\<close>

definition consistent_order :: "('a \<Rightarrow> 'a \<Rightarrow> int) \<Rightarrow> bool" where
  "consistent_order cmp =
     ((\<forall>a b. cmp a b \<le> 0 \<or> cmp b a \<le> 0)
      \<and> (\<forall>a b. cmp a b \<le> 0 \<and> cmp b a \<le> 0 \<longrightarrow> a = b)
      \<and> (\<forall>a b c. cmp a b \<le> 0 \<and> cmp b c \<le> 0 \<longrightarrow> cmp a c \<le> 0))"

definition relevant ::
  "DesktopWindow option \<Rightarrow> Transaction \<Rightarrow> bool" where
  "relevant targetWindow t =
     list_ex (\<lambda>w. targetWindow \<noteq> None \<and> id_of w = id_of (identity (the targetWindow))) (windows t)"

definition group_changed ::
  "(string \<Rightarrow> string \<Rightarrow> int) \<Rightarrow> (WindowIdentity list \<Rightarrow> nat) \<Rightarrow> Environment
     \<Rightarrow> WindowIdentity \<Rightarrow> WindowGroupChangedEvent \<Rightarrow> Desktop \<Rightarrow> outcome \<times> Desktop" where
  "group_changed localeCompare group_length env this event d =
     (case window_objects d this of
        None \<Rightarrow> (Fulfilled, d)
      | Some w \<Rightarrow>
          (let targetWindow = window_objects d (targetWindowAppUuid event, targetWindowName event);
               targetWindowGroup = map_option snapGroup targetWindow;
               own = groups d (snapGroup w)
           in if reason event = ''leave'' then
                (let modifiedSourceGroup = sourceGroup event @ [(fst (identity w), snd (identity w))]
                 in if group_length own > 1
                       \<and> compareSnapAndEventWindowArrays localeCompare own modifiedSourceGroup
                    then (case new_DesktopSnapGroup d of (grp, d1) \<Rightarrow> setSnapGroup env grp this d1)
                    else (Fulfilled, d))
              else if reason event = ''join'' then
                (case targetWindowGroup of
                   Some grp \<Rightarrow>
                     if compareSnapAndEventWindowArrays localeCompare own (targetGroup event)
                     then (Fulfilled, d) else (Fulfilled, addToSnapGroup grp this d)
                 | None \<Rightarrow> (Fulfilled, d))
              else if reason event = ''merge'' then
                (case targetWindowGroup of
                   Some grp \<Rightarrow> (Fulfilled, snd (promise_all (setSnapGroup env grp) own d))
                 | None \<Rightarrow> (Fulfilled, d))
              else (Fulfilled, d)))"

definition handleGroupChanged ::
  "(string \<Rightarrow> string \<Rightarrow> int) \<Rightarrow> (WindowIdentity list \<Rightarrow> nat) \<Rightarrow> Environment
     \<Rightarrow> WindowIdentity \<Rightarrow> WindowGroupChangedEvent \<Rightarrow> Desktop \<Rightarrow> outcome \<times> Desktop" where
  "handleGroupChanged localeCompare group_length env this event d =
     (if name event \<noteq> sourceWindowName event \<or> uuid event \<noteq> sourceWindowAppUuid event
      then (Fulfilled, d)
      else
        (case sync_window env this d of
           (Rejected e, d0) \<Rightarrow> (Rejected e, d0)
         | (r, d0) \<Rightarrow>
             (let targetWindow = window_objects d0 (targetWindowAppUuid event, targetWindowName event);
                  relevantTransactions = filter (relevant targetWindow) (activeTransactions d0)
              in if length relevantTransactions > 0 then
                   (Fulfilled,
                    d0\<lparr>debounced_log := debounced_log d0
                          @ map (\<lambda>t. (object t, Postpone)) relevantTransactions\<rparr>)
                 else group_changed localeCompare group_length env this event d0)))"

section \<open>Windows and environments of the scenarios\<close>

text \<open>A window whose opacity the service has lowered from 1 to one half.\<close>

definition dimmed_window :: DesktopWindow where
  "dimmed_window =
     snd (updateState False [Opacity \<mapsto> VNumber (1/2)] SERVICE
            (existing_window (''app'', ''main'') createTemporaryState 0))"

text \<open>A window after \<open>close\<close> or \<open>handleClosing\<close>, whose listeners are still registered.\<close>

definition closing_window :: DesktopWindow where
  "closing_window =
     (existing_window (''app'', ''main'') createTemporaryState 0)\<lparr>lifecycleStage := ENDING\<rparr>"

definition unmaximizable_window :: DesktopWindow where
  "unmaximizable_window =
     existing_window (''app'', ''main'') (createTemporaryState(Maximizable := VBool False)) 0"

definition busy_window :: DesktopWindow where
  "busy_window =
     (existing_window (''app'', ''main'') createTemporaryState 0)\<lparr>pendingActions := [Hide]\<rparr>"

definition maximized_window :: DesktopWindow where
  "maximized_window =
     existing_window (''app'', ''main'') (createTemporaryState(State := VString ''maximized'')) 0"

definition primary_monitor :: "EntityState \<Rightarrow> Rectangle" where
  "primary_monitor st = \<lparr>center = \<lparr>x = 960, y = 540\<rparr>, halfSize = \<lparr>x = 960, y = 540\<rparr>\<rparr>"

text \<open>
  Three windows of one application, snapped together in group 0, with nothing pending;
  an environment in which every native call succeeds and every wait ends with an empty
  list; and \<open>localeCompare\<close> as the lexicographic order of the characters.
\<close>

definition window_A :: WindowIdentity where
  "window_A = (''app'', ''A'')"

definition window_B :: WindowIdentity where
  "window_B = (''app'', ''B'')"

definition window_C :: WindowIdentity where
  "window_C = (''app'', ''C'')"

definition snapped_desktop :: Desktop where
  "snapped_desktop =
     \<lparr>window_objects =
        [window_A \<mapsto> existing_window window_A createTemporaryState 0,
         window_B \<mapsto> existing_window window_B createTemporaryState 0,
         window_C \<mapsto> existing_window window_C createTemporaryState 0],
      groups = (\<lambda>g. [])(0 := [window_A, window_B, window_C]),
      next_object = 1,
      activeTransactions = [],
      debounced_log = [],
      native_log = []\<rparr>"

definition quiet :: Environment where
  "quiet = \<lparr>waits_of = (\<lambda>w c. Inr []), leaveGroup_error = (\<lambda>w. None),
            mergeGroups_error = (\<lambda>w t. None)\<rparr>"

definition lexicographic :: "string \<Rightarrow> string \<Rightarrow> int" where
  "lexicographic a b = (if a < b then - 1 else if a = b then 0 else 1)"


text \<open>The desktop while a transaction on window C alone is active.\<close>

definition desktop_in_transaction :: Desktop where
  "desktop_in_transaction =
     snapped_desktop\<lparr>activeTransactions := [\<lparr>object = 1, windows = [window_C]\<rparr>], next_object := 2\<rparr>"

text \<open>
  The event of C leaving the group, as window \<open>n\<close> of the application receives it: the
  source window is C and the source group is what is left, listed as B and A. The target
  window of the event is window \<open>t\<close>.
\<close>

definition leave_event :: "string \<Rightarrow> string \<Rightarrow> WindowGroupChangedEvent" where
  "leave_event n t =
     \<lparr>name = n, uuid = ''app'', sourceWindowName = ''C'', sourceWindowAppUuid = ''app'',
      targetWindowName = t, targetWindowAppUuid = ''app'', reason = ''leave'',
      sourceGroup = [(''app'', ''B''), (''app'', ''A'')], targetGroup = []\<rparr>"

section \<open>Closed forms of the update pipeline\<close>

lemma object_assign_eq: "object_assign t s = s"
  by (cases t; cases s) simp_all

lemma Point_neq_iff: "(p \<noteq> q) = (x p \<noteq> x q \<or> y p \<noteq> y q)" for p q :: "'a Point"
  by (cases p; cases q) auto

lemma points_differ_eq: "points_differ a b = (a \<noteq> b)"
  by (cases a; cases b) (simp_all add: Point_neq_iff)

lemma constraint_differs_eq: "constraint_differs a b = (a \<noteq> b)"
  by (cases a; cases b) (auto simp: constraint_differs_def)

lemma constraints_differ_eq: "constraints_differ a b = (a \<noteq> b)"
  by (cases a; cases b) (simp_all add: constraint_differs_eq Point_neq_iff)

lemma isModified_eq: "isModified k prev new = (prev k \<noteq> Some (new k))"
  by (auto simp: isModified_def points_differ_eq constraints_differ_eq split: option.splits)

lemma distinct_all_keys: "distinct all_keys"
  by (simp add: all_keys_def)

lemma set_all_keys: "set all_keys = UNIV"
proof -
  have "k \<in> set all_keys" for k by (cases k) (simp_all add: all_keys_def)
  then show ?thesis by auto
qed

text \<open>Each of the four loops, over any list of distinct keys, and then over all keys.\<close>

lemma fold_note_application_change:
  "distinct ks \<Longrightarrow>
   fold (\<lambda>k s. if d k \<noteq> None then note_application_change d k s else s) ks w =
   w\<lparr>applicationState := (\<lambda>k. if k \<in> set ks \<and> d k \<noteq> None \<and> isModified k d (currentState_field w)
        then the (d k) else applicationState w k)\<rparr>"
proof (induction ks arbitrary: w)
  case Nil
  then show ?case by simp
next
  case (Cons a ks)
  then show ?case
    by (auto simp: note_application_change_def object_assign_eq fun_eq_iff
          intro!: arg_cong[where f="\<lambda>f. applicationState_update f w"])
qed

lemma fold_track_modification:
  "distinct ks \<Longrightarrow>
   fold (\<lambda>k s. if d k \<noteq> None then track_modification d k s else s) ks w =
   w\<lparr>modifiedState := (\<lambda>k. if k \<in> set ks \<and> d k \<noteq> None
        then (if isModified k d (applicationState w) then d k else None) else modifiedState w k)\<rparr>"
proof (induction ks arbitrary: w)
  case Nil
  then show ?case by simp
next
  case (Cons a ks)
  then show ?case
    by (auto simp: track_modification_def fun_eq_iff
          intro!: arg_cong[where f="\<lambda>f. modifiedState_update f w"])
qed

lemma fold_backup_value:
  "distinct ks \<Longrightarrow>
   fold (\<lambda>k s. if d k \<noteq> None then backup_value k s else s) ks w =
   w\<lparr>temporaryState := (\<lambda>k. if k \<in> set ks \<and> d k \<noteq> None \<and> temporaryState w k = None
        then Some (currentState_field w k) else temporaryState w k)\<rparr>"
proof (induction ks arbitrary: w)
  case Nil
  then show ?case by simp
next
  case (Cons a ks)
  then show ?case
    by (auto simp: backup_value_def fun_eq_iff
          intro!: arg_cong[where f="\<lambda>f. temporaryState_update f w"])
qed

lemma fold_drop_backup:
  "distinct ks \<Longrightarrow>
   fold (\<lambda>k s. if d k \<noteq> None then drop_backup k s else s) ks w =
   w\<lparr>temporaryState := (\<lambda>k. if k \<in> set ks \<and> d k \<noteq> None then None else temporaryState w k)\<rparr>"
proof (induction ks arbitrary: w)
  case Nil
  then show ?case by simp
next
  case (Cons a ks)
  then show ?case
    by (auto simp: drop_backup_def fun_eq_iff
          intro!: arg_cong[where f="\<lambda>f. temporaryState_update f w"])
qed

lemma forEach_note_application_change:
  "forEachProperty d (note_application_change d) w =
   w\<lparr>applicationState := (\<lambda>k. if d k \<noteq> None \<and> isModified k d (currentState_field w)
        then the (d k) else applicationState w k)\<rparr>"
  unfolding forEachProperty_def
  by (subst fold_note_application_change) (simp_all add: distinct_all_keys set_all_keys)

lemma forEach_track_modification:
  "forEachProperty d (track_modification d) w =
   w\<lparr>modifiedState := (\<lambda>k. if d k \<noteq> None
        then (if isModified k d (applicationState w) then d k else None) else modifiedState w k)\<rparr>"
  unfolding forEachProperty_def
  by (subst fold_track_modification) (simp_all add: distinct_all_keys set_all_keys)

lemma forEach_backup_value:
  "forEachProperty d backup_value w =
   w\<lparr>temporaryState := (\<lambda>k. if d k \<noteq> None \<and> temporaryState w k = None
        then Some (currentState_field w k) else temporaryState w k)\<rparr>"
  unfolding forEachProperty_def
  by (subst fold_backup_value) (simp_all add: distinct_all_keys set_all_keys)

lemma forEach_drop_backup:
  "forEachProperty d drop_backup w =
   w\<lparr>temporaryState := (\<lambda>k. if d k \<noteq> None then None else temporaryState w k)\<rparr>"
  unfolding forEachProperty_def
  by (subst fold_drop_backup) (simp_all add: distinct_all_keys set_all_keys)

lemma updateState_APPLICATION:
  "updateState isWin10 delta APPLICATION w =
     (Fulfilled,
      w\<lparr>applicationState := (\<lambda>k. if delta k \<noteq> None \<and> isModified k delta (currentState_field w)
             then the (delta k) else applicationState w k),
        temporaryState := (\<lambda>k. if delta k \<noteq> None then None else temporaryState w k),
        currentState_field := merge_delta (currentState_field w) delta\<rparr>)"
  by (simp add: updateState_def forEach_note_application_change forEach_drop_backup Let_def
        cong: if_cong)

lemma updateState_service:
  "origin \<noteq> APPLICATION \<Longrightarrow> isReady w \<Longrightarrow>
   updateState isWin10 delta origin w =
     addPendingActions
       (native_commands isWin10 delta (currentState_field w State) (currentState_field w ResizeConstraints)
          (merge_delta (currentState_field w) delta))
       (w\<lparr>modifiedState := (\<lambda>k. if delta k \<noteq> None
              then (if isModified k delta (applicationState w) then delta k else None)
              else modifiedState w k),
          temporaryState :=
            (if origin = SERVICE_TEMPORARY
             then (\<lambda>k. if delta k \<noteq> None \<and> temporaryState w k = None
                       then Some (currentState_field w k) else temporaryState w k)
             else (\<lambda>k. if delta k \<noteq> None then None else temporaryState w k)),
          currentState_field := merge_delta (currentState_field w) delta\<rparr>)"
  by (cases origin)
     (simp_all add: updateState_def forEach_track_modification forEach_backup_value
        forEach_drop_backup Let_def fun_eq_iff cong: if_cong)

lemma snd_addPendingActions:
  "snd (addPendingActions acts w) = w\<lparr>pendingActions := pendingActions w @ acts\<rparr>"
  by (simp add: addPendingActions_def Let_def)

lemma isReady_existing: "isReady (existing_window i s g)"
  by (simp add: isReady_def existing_window_def)

lemma options_of_single:
  "k \<notin> {Center, HalfSize, State, Hidden, ResizeConstraints} \<Longrightarrow> options_of [k \<mapsto> v] = [(k, v)]"
  by (cases k) (simp_all add: options_of_def all_keys_def)

lemma native_commands_option:
  "k \<notin> {Center, HalfSize, State, Hidden, ResizeConstraints} \<Longrightarrow>
   native_commands isWin10 [k \<mapsto> v] ps pc st = [UpdateOptions [(k, v)]]"
  by (cases k)
     (simp_all add: native_commands_def visibility_command_def state_command_def bounds_command_def
        constraints_command_def options_command_def options_of_single)

lemma native_commands_same_state:
  "native_commands isWin10 [State \<mapsto> s] s pc st = []"
  by (simp add: native_commands_def visibility_command_def state_command_def bounds_command_def
        constraints_command_def options_command_def options_of_def all_keys_def)

section \<open>Updates of \<open>APPLICATION\<close> origin\<close>

text \<open>
  C1, as the source has it. An update of \<open>APPLICATION\<close> origin is fulfilled. It writes a
  field of the delta into \<open>applicationState\<close> exactly when the value differs from the one
  in \<open>currentState\<close>, whether or not \<open>modifiedState\<close> has an entry for the field; a field
  that is missing from the delta, or whose value is the current one, keeps its
  \<open>applicationState\<close> value. The delta is merged into \<open>currentState\<close>, no action is added
  to the pending actions, and \<open>modifiedState\<close> is left as it is.
\<close>

theorem C1_application_update:
  assumes "updateState isWin10 delta APPLICATION w = (r, w')"
  shows "r = Fulfilled
    \<and> (\<forall>k v. delta k = Some v \<and> v \<noteq> currentState_field w k \<longrightarrow> applicationState w' k = v)
    \<and> (\<forall>k. delta k = None \<or> delta k = Some (currentState_field w k)
            \<longrightarrow> applicationState w' k = applicationState w k)
    \<and> (\<forall>k v. delta k = Some v \<longrightarrow> currentState_field w' k = v)
    \<and> (\<forall>k. delta k = None \<longrightarrow> currentState_field w' k = currentState_field w k)
    \<and> pendingActions w' = pendingActions w
    \<and> modifiedState w' = modifiedState w"
  using assms by (auto simp: updateState_APPLICATION isModified_eq merge_delta_def)

theorem C1_witness:
  "applicationState (snd (updateState False [Opacity \<mapsto> VNumber (4/5)] APPLICATION dimmed_window)) Opacity
     = VNumber (4/5)
   \<and> pendingActions (snd (updateState False [Opacity \<mapsto> VNumber (4/5)] APPLICATION dimmed_window))
     = pendingActions dimmed_window"
proof -
  have cur: "VNumber (4/5) \<noteq> currentState_field dimmed_window Opacity"
    by (simp add: dimmed_window_def updateState_service snd_addPendingActions merge_delta_def
          isReady_existing)
  have run: "updateState False [Opacity \<mapsto> VNumber (4/5)] APPLICATION dimmed_window
        = (fst (updateState False [Opacity \<mapsto> VNumber (4/5)] APPLICATION dimmed_window),
           snd (updateState False [Opacity \<mapsto> VNumber (4/5)] APPLICATION dimmed_window))"
    by simp
  from C1_application_update [OF run] cur show ?thesis by simp
qed

text \<open>
  C1 as it is stated fails: the window is \<open>READY\<close>, \<open>modifiedState\<close> records the service's
  override of the opacity, and the update of \<open>APPLICATION\<close> origin still replaces the
  opacity 1 of \<open>applicationState\<close> by four fifths.
\<close>

theorem C1_counterexample:
  "isReady dimmed_window
   \<and> modifiedState dimmed_window Opacity = Some (VNumber (1/2))
   \<and> applicationState dimmed_window Opacity = VNumber 1
   \<and> applicationState (snd (updateState False [Opacity \<mapsto> VNumber (4/5)] APPLICATION dimmed_window)) Opacity
       = VNumber (4/5)"
  by (simp add: dimmed_window_def updateState_service updateState_APPLICATION snd_addPendingActions
        isModified_eq existing_window_def isReady_def merge_delta_def)

text \<open>
  C8, as the source has it. On a window that is not \<open>READY\<close> an update of \<open>APPLICATION\<close>
  origin is fulfilled, adds no pending action and leaves \<open>modifiedState\<close> as it is; the
  lifecycle stage is not read, so the window is updated exactly as a \<open>READY\<close> window is.
\<close>

theorem C8_application_update_ignores_lifecycle:
  assumes "\<not> isReady w"
  shows "fst (updateState isWin10 delta APPLICATION w) = Fulfilled
    \<and> pendingActions (snd (updateState isWin10 delta APPLICATION w)) = pendingActions w
    \<and> modifiedState (snd (updateState isWin10 delta APPLICATION w)) = modifiedState w
    \<and> snd (updateState isWin10 delta APPLICATION w)
        = (snd (updateState isWin10 delta APPLICATION (w\<lparr>lifecycleStage := READY\<rparr>)))
            \<lparr>lifecycleStage := lifecycleStage w\<rparr>"
  by (simp add: updateState_APPLICATION cong: if_cong)

theorem C8_witness:
  "\<not> isReady closing_window
   \<and> fst (updateState False [Hidden \<mapsto> VBool True] APPLICATION closing_window) = Fulfilled
   \<and> pendingActions (snd (updateState False [Hidden \<mapsto> VBool True] APPLICATION closing_window)) = []"
proof -
  have h: "\<not> isReady closing_window"
    by (simp add: closing_window_def isReady_def existing_window_def)
  have p: "pendingActions closing_window = []"
    by (simp add: closing_window_def existing_window_def)
  from C8_application_update_ignores_lifecycle [OF h, of False "[Hidden \<mapsto> VBool True]"]
  have "fst (updateState False [Hidden \<mapsto> VBool True] APPLICATION closing_window) = Fulfilled"
    and "pendingActions (snd (updateState False [Hidden \<mapsto> VBool True] APPLICATION closing_window))
         = pendingActions closing_window"
    by blast+
  with h p show ?thesis by simp
qed

text \<open>
  C8 as it is stated fails: the window is \<open>ENDING\<close>, and the update still sets \<open>hidden\<close> in
  \<open>currentState\<close> and in \<open>applicationState\<close>.
\<close>

theorem C8_counterexample:
  "\<not> isReady closing_window
   \<and> currentState_field closing_window Hidden = VBool False
   \<and> applicationState closing_window Hidden = VBool False
   \<and> currentState_field (snd (updateState False [Hidden \<mapsto> VBool True] APPLICATION closing_window)) Hidden
       = VBool True
   \<and> applicationState (snd (updateState False [Hidden \<mapsto> VBool True] APPLICATION closing_window)) Hidden
       = VBool True"
  by (simp add: closing_window_def updateState_APPLICATION isModified_eq existing_window_def
        isReady_def merge_delta_def)

section \<open>Updates by the service\<close>

lemma options_of_member:
  "delta k = Some v \<Longrightarrow> k \<notin> {Center, HalfSize, State, Hidden, ResizeConstraints} \<Longrightarrow>
   (k, v) \<in> set (options_of delta)"
  by (auto simp: options_of_def set_all_keys image_iff intro!: bexI [where x = k])

lemma bounds_command_single:
  "delta Center \<noteq> None \<or> delta HalfSize \<noteq> None \<Longrightarrow>
   \<exists>b. bounds_command isWin10 delta st = [SetBounds b]"
  by (simp add: bounds_command_def Let_def)

lemma constraints_command_single:
  "delta ResizeConstraints \<noteq> None \<Longrightarrow>
   \<exists>c. constraints_command delta prev = [UpdateConstraints c]"
  by (auto simp: constraints_command_def Let_def)

lemma applyProperties_queue:
  assumes "isReady w"
  shows "pendingActions (snd (applyProperties isWin10 delta w))
      = pendingActions w
        @ (case delta Hidden of None \<Rightarrow> [] | Some h \<Rightarrow> [if truthy h then Hide else Show])
        @ (case delta State of
             None \<Rightarrow> []
           | Some s \<Rightarrow>
               if s = currentState_field w State then []
               else if s = VString ''normal'' then [Restore]
               else if s = VString ''minimized'' then [Minimize]
               else if s = VString ''maximized'' then [Maximize]
               else [])
        @ bounds_command isWin10 delta (merge_delta (currentState_field w) delta)
        @ constraints_command delta (currentState_field w ResizeConstraints)
        @ (if options_of delta = [] then [] else [UpdateOptions (options_of delta)])"
  using assms
  by (simp add: applyProperties_def updateState_service snd_addPendingActions native_commands_def
        visibility_command_def state_command_def options_command_def Let_def
        split: option.splits)

text \<open>
  C9, as the source has it. On a \<open>READY\<close> window \<open>applyProperties\<close> is fulfilled for every
  delta, and what it queues does not depend on the values the fields of the delta have
  at the moment, with one exception. A delta with \<open>hidden\<close> queues \<open>hide\<close> or \<open>show\<close>; one
  with \<open>center\<close> or \<open>halfSize\<close> queues one \<open>setBounds\<close>; one with \<open>resizeConstraints\<close> queues
  one update of the constraints; one with any other key queues one \<open>updateOptions\<close> that
  has every such key with its value. The exception is \<open>state\<close>: a command is queued for
  it only when its value is not the current one. So \<open>applyProperties({maximizable: false})\<close>
  queues one \<open>updateOptions\<close> for the field whatever value the field has, and a delta
  with only the current \<open>state\<close> queues nothing.
\<close>

theorem C9_applyProperties_unchanged_value:
  assumes "isReady w"
  shows "fst (applyProperties isWin10 delta w) = Fulfilled
    \<and> pendingActions (snd (applyProperties isWin10 delta w))
        = pendingActions w
          @ (case delta Hidden of None \<Rightarrow> [] | Some h \<Rightarrow> [if truthy h then Hide else Show])
          @ (case delta State of
               None \<Rightarrow> []
             | Some s \<Rightarrow>
                 if s = currentState_field w State then []
                 else if s = VString ''normal'' then [Restore]
                 else if s = VString ''minimized'' then [Minimize]
                 else if s = VString ''maximized'' then [Maximize]
                 else [])
          @ bounds_command isWin10 delta (merge_delta (currentState_field w) delta)
          @ constraints_command delta (currentState_field w ResizeConstraints)
          @ (if options_of delta = [] then [] else [UpdateOptions (options_of delta)])
    \<and> (delta Center \<noteq> None \<or> delta HalfSize \<noteq> None \<longrightarrow>
          (\<exists>b. bounds_command isWin10 delta (merge_delta (currentState_field w) delta) = [SetBounds b]))
    \<and> (delta ResizeConstraints \<noteq> None \<longrightarrow>
          (\<exists>c. constraints_command delta (currentState_field w ResizeConstraints)
                 = [UpdateConstraints c]))
    \<and> (\<forall>k v. delta k = Some v \<and> k \<notin> {Center, HalfSize, State, Hidden, ResizeConstraints} \<longrightarrow>
          (k, v) \<in> set (options_of delta))
    \<and> pendingActions (snd (applyProperties isWin10 [Maximizable \<mapsto> VBool False] w))
        = pendingActions w @ [UpdateOptions [(Maximizable, VBool False)]]
    \<and> (currentState_field w State = s \<longrightarrow>
        pendingActions (snd (applyProperties isWin10 [State \<mapsto> s] w)) = pendingActions w)"
proof -
  have a: "fst (applyProperties isWin10 delta w) = Fulfilled"
    by (simp add: applyProperties_def)
  note b = applyProperties_queue [OF assms, of isWin10 delta]
  have c: "delta Center \<noteq> None \<or> delta HalfSize \<noteq> None \<longrightarrow>
          (\<exists>b. bounds_command isWin10 delta (merge_delta (currentState_field w) delta) = [SetBounds b])"
    by (intro impI) (rule bounds_command_single)
  have d: "delta ResizeConstraints \<noteq> None \<longrightarrow>
          (\<exists>c. constraints_command delta (currentState_field w ResizeConstraints)
                 = [UpdateConstraints c])"
    by (intro impI) (rule constraints_command_single)
  have e: "\<forall>k v. delta k = Some v \<and> k \<notin> {Center, HalfSize, State, Hidden, ResizeConstraints} \<longrightarrow>
          (k, v) \<in> set (options_of delta)"
    using options_of_member by blast
  have f: "pendingActions (snd (applyProperties isWin10 [Maximizable \<mapsto> VBool False] w))
        = pendingActions w @ [UpdateOptions [(Maximizable, VBool False)]]"
    using assms
    by (simp add: applyProperties_def updateState_service snd_addPendingActions native_commands_option)
  have g: "currentState_field w State = s \<longrightarrow>
        pendingActions (snd (applyProperties isWin10 [State \<mapsto> s] w)) = pendingActions w"
    using assms
    by (simp add: applyProperties_def updateState_service snd_addPendingActions
          native_commands_same_state)
  show ?thesis by (intro conjI) (rule a, rule b, rule c, rule d, rule e, rule f, rule g)
qed

theorem C9_witness:
  "isReady unmaximizable_window
   \<and> fst (applyProperties False [Maximizable \<mapsto> VBool False] unmaximizable_window) = Fulfilled
   \<and> pendingActions (snd (applyProperties False [Maximizable \<mapsto> VBool False] unmaximizable_window))
       = [UpdateOptions [(Maximizable, VBool False)]]
   \<and> pendingActions (snd (applyProperties False [Hidden \<mapsto> VBool False] unmaximizable_window))
       = [Show]"
proof -
  have h: "isReady unmaximizable_window"
    by (simp add: unmaximizable_window_def isReady_existing)
  have p: "pendingActions unmaximizable_window = []"
    by (simp add: unmaximizable_window_def existing_window_def)
  note t = C9_applyProperties_unchanged_value [OF h, of False]
  from t [of "[Maximizable \<mapsto> VBool False]"]
  have a: "fst (applyProperties False [Maximizable \<mapsto> VBool False] unmaximizable_window) = Fulfilled"
    by (rule conjunct1)
  from t [of "[Maximizable \<mapsto> VBool False]", THEN conjunct2, THEN conjunct2, THEN conjunct2,
         THEN conjunct2, THEN conjunct2, THEN conjunct1]
  have b: "pendingActions (snd (applyProperties False [Maximizable \<mapsto> VBool False] unmaximizable_window))
        = pendingActions unmaximizable_window @ [UpdateOptions [(Maximizable, VBool False)]]" .
  from t [of "[Hidden \<mapsto> VBool False]", THEN conjunct2, THEN conjunct1]
  have c: "pendingActions (snd (applyProperties False [Hidden \<mapsto> VBool False] unmaximizable_window))
        = pendingActions unmaximizable_window @ [Show]"
    by (simp add: bounds_command_def constraints_command_def options_of_def all_keys_def)
  from a b c h p show ?thesis by simp
qed

text \<open>
  C9 as it is stated fails: the window is \<open>READY\<close>, its \<open>maximizable\<close> is already false and
  nothing is pending, and the call still queues the \<open>updateOptions\<close> command.
\<close>

theorem C9_counterexample:
  "isReady unmaximizable_window
   \<and> currentState_field unmaximizable_window Maximizable = VBool False
   \<and> pendingActions unmaximizable_window = []
   \<and> pendingActions (snd (applyProperties False [Maximizable \<mapsto> VBool False] unmaximizable_window))
       = [UpdateOptions [(Maximizable, VBool False)]]"
  by (simp add: unmaximizable_window_def applyProperties_def updateState_service snd_addPendingActions
        native_commands_option isReady_existing)
     (simp add: existing_window_def)

section \<open>Temporary overrides\<close>

lemma applyOverride_changed:
  assumes "isReady w" "v \<noteq> currentState_field w p"
  shows "isReady (snd (applyOverride isWin10 p v w))"
    and "currentState_field (snd (applyOverride isWin10 p v w)) p = v"
    and "temporaryState (snd (applyOverride isWin10 p v w)) p
         = (case temporaryState w p of None \<Rightarrow> Some (currentState_field w p) | Some b \<Rightarrow> Some b)"
  using assms
  by (auto simp: applyOverride_def updateState_service snd_addPendingActions merge_delta_def
        isReady_def split: option.splits)

lemma applyOverrides_backed_up:
  assumes "isReady w" "temporaryState w p = Some b" "each_changes (currentState_field w p) vs"
  shows "isReady (applyOverrides isWin10 p vs w)
    \<and> temporaryState (applyOverrides isWin10 p vs w) p = Some b
    \<and> currentState_field (applyOverrides isWin10 p vs w) p = last (currentState_field w p # vs)"
  using assms
proof (induction vs arbitrary: w)
  case Nil
  then show ?case by simp
next
  case (Cons v vs)
  let ?w1 = "snd (applyOverride isWin10 p v w)"
  from Cons.prems have ch: "v \<noteq> currentState_field w p" and rest: "each_changes v vs"
    by simp_all
  have r: "isReady ?w1" and c: "currentState_field ?w1 p = v" and t: "temporaryState ?w1 p = Some b"
    using applyOverride_changed [OF Cons.prems(1) ch, of isWin10] Cons.prems(2) by simp_all
  from rest c have "each_changes (currentState_field ?w1 p) vs" by simp
  from Cons.IH [OF r t this] c show ?case by simp
qed

lemma applyOverrides_first:
  assumes "isReady w" "temporaryState w p = None" "each_changes (currentState_field w p) vs"
    and "vs \<noteq> []"
  shows "isReady (applyOverrides isWin10 p vs w)
    \<and> temporaryState (applyOverrides isWin10 p vs w) p = Some (currentState_field w p)
    \<and> currentState_field (applyOverrides isWin10 p vs w) p = last vs"
proof (cases vs)
  case Nil
  with assms show ?thesis by simp
next
  case (Cons v vs')
  let ?w1 = "snd (applyOverride isWin10 p v w)"
  from assms Cons have ch: "v \<noteq> currentState_field w p" and rest: "each_changes v vs'"
    by simp_all
  have r: "isReady ?w1" and c: "currentState_field ?w1 p = v"
    and t: "temporaryState ?w1 p = Some (currentState_field w p)"
    using applyOverride_changed [OF assms(1) ch, of isWin10] assms(2) by simp_all
  from rest c have "each_changes (currentState_field ?w1 p) vs'" by simp
  from applyOverrides_backed_up [OF r t this] c Cons show ?thesis by simp
qed

lemma each_changes_take: "each_changes c vs \<Longrightarrow> each_changes c (take n vs)"
proof (induction vs arbitrary: c n)
  case Nil
  then show ?case by simp
next
  case (Cons v vs)
  then show ?case by (cases n) simp_all
qed

lemma resetOverride_backed_up:
  assumes "isReady w" "temporaryState w p = Some b"
  shows "resetOverride isWin10 p w
           = updateState isWin10 [p \<mapsto> b] SERVICE (w\<lparr>currentState_field := (currentState_field w)(p := b)\<rparr>)"
    and "currentState_field (snd (resetOverride isWin10 p w)) p = b"
    and "temporaryState (snd (resetOverride isWin10 p w)) p = None"
    and "fst (resetOverride isWin10 p w) \<noteq> Rejected e"
  using assms
  by (auto simp: resetOverride_def updateState_service snd_addPendingActions merge_delta_def
        isReady_def addPendingActions_def Let_def)

lemma resetOverride_no_backup:
  "temporaryState w p = None \<Longrightarrow> resetOverride isWin10 p w = (Fulfilled, w)"
  by (simp add: resetOverride_def)

text \<open>
  For the field \<open>state\<close> the reset queues no native command: the previous state is read
  after \<open>resetOverride\<close> has written the backed-up value.
\<close>

lemma resetOverride_state_queues_nothing:
  assumes "isReady w" "temporaryState w State = Some b"
  shows "pendingActions (snd (resetOverride isWin10 State w)) = pendingActions w"
  using assms
  by (simp add: resetOverride_def updateState_service snd_addPendingActions isReady_def
        native_commands_same_state)

text \<open>
  C3. On a \<open>READY\<close> window on which the property \<open>p\<close> has no backup, take any run of one
  or more \<open>applyOverride\<close> calls on \<open>p\<close>, each with a value other than the current one.
  After the first call and after every later one the backup of \<open>p\<close> in \<open>temporaryState\<close>
  is the value \<open>p\<close> had before the first call, while \<open>currentState\<close> has the last value.
  \<open>resetOverride\<close> then is the update of \<open>SERVICE\<close> origin with that first value; it is not
  rejected, \<open>p\<close> has its first value again, and the backup is gone. On any window on
  which \<open>p\<close> has no backup, \<open>resetOverride\<close> is fulfilled and changes nothing.
\<close>

theorem C3_nested_overrides_reset:
  assumes "isReady w" and "temporaryState w p = None"
    and "vs \<noteq> []" and "each_changes (currentState_field w p) vs"
  shows "(\<forall>n. 0 < n \<and> n \<le> length vs \<longrightarrow>
            temporaryState (applyOverrides isWin10 p (take n vs) w) p = Some (currentState_field w p))
    \<and> currentState_field (applyOverrides isWin10 p vs w) p = last vs
    \<and> resetOverride isWin10 p (applyOverrides isWin10 p vs w)
        = updateState isWin10 [p \<mapsto> currentState_field w p] SERVICE
            ((applyOverrides isWin10 p vs w)
               \<lparr>currentState_field :=
                  (currentState_field (applyOverrides isWin10 p vs w))(p := currentState_field w p)\<rparr>)
    \<and> (\<forall>e. fst (resetOverride isWin10 p (applyOverrides isWin10 p vs w)) \<noteq> Rejected e)
    \<and> currentState_field (snd (resetOverride isWin10 p (applyOverrides isWin10 p vs w))) p
        = currentState_field w p
    \<and> temporaryState (snd (resetOverride isWin10 p (applyOverrides isWin10 p vs w))) p = None
    \<and> (\<forall>u. temporaryState u p = None \<longrightarrow> resetOverride isWin10 p u = (Fulfilled, u))"
proof -
  have prefix: "temporaryState (applyOverrides isWin10 p (take n vs) w) p = Some (currentState_field w p)"
    if "0 < n" "n \<le> length vs" for n
  proof -
    from that assms(3) have "take n vs \<noteq> []" by simp
    from applyOverrides_first [OF assms(1,2) each_changes_take [OF assms(4)] this]
    show ?thesis by simp
  qed
  from applyOverrides_first [OF assms(1,2,4,3), of isWin10]
  have r: "isReady (applyOverrides isWin10 p vs w)"
    and t: "temporaryState (applyOverrides isWin10 p vs w) p = Some (currentState_field w p)"
    and c: "currentState_field (applyOverrides isWin10 p vs w) p = last vs"
    by simp_all
  from prefix c resetOverride_backed_up [OF r t, of isWin10] resetOverride_no_backup [of _ p isWin10]
  show ?thesis by simp
qed

theorem C3_witness:
  "isReady (existing_window (''app'', ''main'') createTemporaryState 0)
   \<and> each_changes (createTemporaryState Opacity) [VNumber (1/2), VNumber (1/4)]
   \<and> temporaryState
       (applyOverrides False Opacity [VNumber (1/2), VNumber (1/4)]
          (existing_window (''app'', ''main'') createTemporaryState 0)) Opacity = Some (VNumber 1)
   \<and> currentState_field
       (applyOverrides False Opacity [VNumber (1/2), VNumber (1/4)]
          (existing_window (''app'', ''main'') createTemporaryState 0)) Opacity = VNumber (1/4)
   \<and> currentState_field
       (snd (resetOverride False Opacity
          (applyOverrides False Opacity [VNumber (1/2), VNumber (1/4)]
             (existing_window (''app'', ''main'') createTemporaryState 0)))) Opacity = VNumber 1
   \<and> temporaryState
       (snd (resetOverride False Opacity
          (applyOverrides False Opacity [VNumber (1/2), VNumber (1/4)]
             (existing_window (''app'', ''main'') createTemporaryState 0)))) Opacity = None"
proof -
  let ?w = "existing_window (''app'', ''main'') createTemporaryState 0"
  let ?vs = "[VNumber (1/2), VNumber (1/4)]"
  have a: "isReady ?w" by (rule isReady_existing)
  have b: "temporaryState ?w Opacity = None" by (simp add: existing_window_def)
  have c: "?vs \<noteq> []" by simp
  have cur: "currentState_field ?w Opacity = VNumber 1" by (simp add: existing_window_def)
  have d: "each_changes (currentState_field ?w Opacity) ?vs" by (simp add: cur)
  have n: "0 < (2::nat) \<and> (2::nat) \<le> length ?vs" by simp
  from C3_nested_overrides_reset [OF a b c d, of False] n
  have "temporaryState (applyOverrides False Opacity (take 2 ?vs) ?w) Opacity
          = Some (currentState_field ?w Opacity)"
    and "currentState_field (applyOverrides False Opacity ?vs ?w) Opacity = last ?vs"
    and "currentState_field (snd (resetOverride False Opacity (applyOverrides False Opacity ?vs ?w))) Opacity
          = currentState_field ?w Opacity"
    and "temporaryState (snd (resetOverride False Opacity (applyOverrides False Opacity ?vs ?w))) Opacity
          = None"
    by blast+
  with a d cur show ?thesis by simp
qed

section \<open>The sync barrier is bounded\<close>

lemma sync_loop_timeout:
  assumes "pending \<noteq> []" "awaitCount \<le> MAX_AWAITS"
    and "\<forall>c. awaitCount < c \<and> c \<le> MAX_AWAITS \<longrightarrow> (\<exists>acts. waits c = Inr acts \<and> acts \<noteq> [])"
  shows "fst (sync_loop waits wid awaitCount pending) = Rejected (SyncFailed wid (MAX_AWAITS + 1))
       \<and> length (snd (sync_loop waits wid awaitCount pending)) = MAX_AWAITS - awaitCount"
  using assms
proof (induction waits wid awaitCount pending rule: sync_loop.induct)
  case (1 waits wid awaitCount pending)
  show ?case
  proof (cases "awaitCount + 1 \<le> MAX_AWAITS")
    case True
    with "1.prems" obtain acts where a: "waits (awaitCount + 1) = Inr acts" "acts \<noteq> []"
      by (metis Suc_eq_plus1 lessI)
    from "1.prems" True
    have "\<forall>c. awaitCount + 1 < c \<and> c \<le> MAX_AWAITS \<longrightarrow> (\<exists>acts. waits c = Inr acts \<and> acts \<noteq> [])"
      by simp
    from "1.IH" [OF _ True a(1) a(2) True this] "1.prems"(1)
    have ih: "fst (sync_loop waits wid (awaitCount + 1) acts) = Rejected (SyncFailed wid (MAX_AWAITS + 1))"
       "length (snd (sync_loop waits wid (awaitCount + 1) acts)) = MAX_AWAITS - (awaitCount + 1)"
      by simp_all
    show ?thesis
      using True "1.prems"(1) a ih
      by (subst (1 2) sync_loop.simps) (simp add: split_beta)
  next
    case False
    with "1.prems" have "awaitCount = MAX_AWAITS" by simp
    with "1.prems"(1) show ?thesis
      by (subst (1 2) sync_loop.simps) simp
  qed
qed

lemma sync_loop_settles:
  assumes "pending \<noteq> []" "awaitCount < n" "n \<le> MAX_AWAITS" "waits n = Inr []"
    and "\<forall>c. awaitCount < c \<and> c < n \<longrightarrow> (\<exists>acts. waits c = Inr acts \<and> acts \<noteq> [])"
  shows "sync_loop waits wid awaitCount pending
           = (Fulfilled, pending # map (\<lambda>c. projr (waits c)) [awaitCount + 1 ..< n])"
  using assms
proof (induction waits wid awaitCount pending rule: sync_loop.induct)
  case (1 waits wid awaitCount pending)
  from "1.prems" have le: "awaitCount + 1 \<le> MAX_AWAITS" by simp
  show ?case
  proof (cases "awaitCount + 1 = n")
    case True
    with "1.prems" le show ?thesis
      by (subst sync_loop.simps, subst sync_loop.simps) simp
  next
    case False
    with "1.prems" have lt: "awaitCount + 1 < n" by simp
    with "1.prems" obtain acts where a: "waits (awaitCount + 1) = Inr acts" "acts \<noteq> []"
      by (metis Suc_eq_plus1 lessI)
    from "1.prems"
    have "\<forall>c. awaitCount + 1 < c \<and> c < n \<longrightarrow> (\<exists>acts. waits c = Inr acts \<and> acts \<noteq> [])"
      by simp
    from "1.IH" [OF _ le a(1) a(2) lt "1.prems"(3,4) this] "1.prems"(1)
    have ih: "sync_loop waits wid (awaitCount + 1) acts
           = (Fulfilled, acts # map (\<lambda>c. projr (waits c)) [awaitCount + 1 + 1 ..< n])"
      by simp
    have up: "[awaitCount + 1 ..< n] = (awaitCount + 1) # [awaitCount + 1 + 1 ..< n]"
      using lt by (simp add: upt_conv_Cons)
    show ?thesis
      using le "1.prems"(1) a ih up
      by (subst sync_loop.simps) simp
  qed
qed

lemma sync_loop_bound:
  "length (snd (sync_loop waits wid awaitCount pending)) \<le> MAX_AWAITS - awaitCount"
proof (induction waits wid awaitCount pending rule: sync_loop.induct)
  case (1 waits wid awaitCount pending)
  show ?case
  proof (cases "length pending > 0 \<and> awaitCount + 1 \<le> MAX_AWAITS")
    case True
    show ?thesis
    proof (cases "waits (awaitCount + 1)")
      case (Inl e)
      with True show ?thesis by (subst sync_loop.simps) (auto simp: Suc_le_eq)
    next
      case (Inr pending')
      from "1.IH" [OF _ _ Inr] True
      have "length (snd (sync_loop waits wid (awaitCount + 1) pending')) \<le> MAX_AWAITS - (awaitCount + 1)"
        by simp
      with True Inr show ?thesis by (subst sync_loop.simps) (auto simp: split_beta)
    qed
  next
    case False
    then show ?thesis by (subst sync_loop.simps) auto
  qed
qed

text \<open>
  C4. \<open>sync\<close> is a total function, so it always settles, and it never awaits more than
  10 times. When every one of the 10 waits ends with a list that is not empty, it is
  rejected with its error after exactly 10 waits (the counter in the message is 11). When
  the \<open>n\<close>-th wait, with \<open>n\<close> at most 10, is the first that ends with an empty list,
  \<open>sync\<close> is fulfilled, having awaited the actions pending at the start and then each
  list of newly queued actions in turn. With nothing pending it is fulfilled at once.
  The waits are those that are fulfilled; a wait that a rejected action ends rejects
  \<open>sync\<close> with that action's error.
\<close>

theorem C4_sync_bounded:
  assumes "pendingActions w \<noteq> []"
  shows "length (snd (sync waits w)) \<le> 10
    \<and> ((\<forall>c. 0 < c \<and> c \<le> 10 \<longrightarrow> (\<exists>acts. waits c = Inr acts \<and> acts \<noteq> []))
        \<longrightarrow> fst (sync waits w) = Rejected (SyncFailed (id_of (identity w)) 11)
            \<and> length (snd (sync waits w)) = 10)
    \<and> (\<forall>n. 0 < n \<and> n \<le> 10 \<and> waits n = Inr []
            \<and> (\<forall>c. 0 < c \<and> c < n \<longrightarrow> (\<exists>acts. waits c = Inr acts \<and> acts \<noteq> []))
        \<longrightarrow> sync waits w = (Fulfilled, pendingActions w # map (\<lambda>c. projr (waits c)) [1 ..< n]))
    \<and> sync waits (w\<lparr>pendingActions := []\<rparr>) = (Fulfilled, [])"
proof -
  have b: "length (snd (sync waits w)) \<le> 10"
    using sync_loop_bound [of waits "id_of (identity w)" 0 "pendingActions w"]
    by (simp add: sync_def MAX_AWAITS_def)
  have t: "fst (sync waits w) = Rejected (SyncFailed (id_of (identity w)) 11)
            \<and> length (snd (sync waits w)) = 10"
    if "\<forall>c. 0 < c \<and> c \<le> 10 \<longrightarrow> (\<exists>acts. waits c = Inr acts \<and> acts \<noteq> [])"
    using sync_loop_timeout [of "pendingActions w" 0 waits "id_of (identity w)"] assms that
    by (simp add: sync_def MAX_AWAITS_def)
  have s: "sync waits w = (Fulfilled, pendingActions w # map (\<lambda>c. projr (waits c)) [1 ..< n])"
    if "0 < n \<and> n \<le> 10 \<and> waits n = Inr []
            \<and> (\<forall>c. 0 < c \<and> c < n \<longrightarrow> (\<exists>acts. waits c = Inr acts \<and> acts \<noteq> []))" for n
    using sync_loop_settles [of "pendingActions w" 0 n waits "id_of (identity w)"] assms that
    by (simp add: sync_def MAX_AWAITS_def)
  have e: "sync waits (w\<lparr>pendingActions := []\<rparr>) = (Fulfilled, [])"
    by (simp add: sync_def)
  from b t s e show ?thesis by blast
qed

theorem C4_witness:
  "pendingActions busy_window \<noteq> []
   \<and> fst (sync refilling busy_window) = Rejected (SyncFailed ''app/main'' 11)
   \<and> length (snd (sync refilling busy_window)) = 10
   \<and> sync settling busy_window = (Fulfilled, [[Hide], [Show]])"
proof -
  have h: "pendingActions busy_window \<noteq> []"
    by (simp add: busy_window_def)
  have i: "id_of (identity busy_window) = ''app/main''"
    by (simp add: busy_window_def existing_window_def id_of_def)
  have p: "pendingActions busy_window = [Hide]"
    by (simp add: busy_window_def)
  have r: "\<forall>c. 0 < c \<and> c \<le> 10 \<longrightarrow> (\<exists>acts. refilling c = Inr acts \<and> acts \<noteq> [])"
    by (simp add: refilling_def)
  have s: "0 < (2::nat) \<and> (2::nat) \<le> 10 \<and> settling 2 = Inr []
            \<and> (\<forall>c. 0 < c \<and> c < 2 \<longrightarrow> (\<exists>acts. settling c = Inr acts \<and> acts \<noteq> []))"
    by (auto simp: settling_def)
  have m: "map (\<lambda>c. projr (settling c)) [1 ..< 2] = [[Show]]"
    by (simp add: settling_def upt_conv_Cons)
  from C4_sync_bounded [OF h, of refilling] r
  have a: "fst (sync refilling busy_window) = Rejected (SyncFailed (id_of (identity busy_window)) 11)
            \<and> length (snd (sync refilling busy_window)) = 10"
    by blast
  from C4_sync_bounded [OF h, of settling] s
  have b: "sync settling busy_window
      = (Fulfilled, pendingActions busy_window # map (\<lambda>c. projr (settling c)) [1 ..< 2])"
    by blast
  from a b h i p m show ?thesis by simp
qed

section \<open>The getter and the classifier\<close>

text \<open>
  C10. For a window whose stored \<open>state\<close> is \<open>maximized\<close> the getter returns a new object:
  the stored state with \<open>center\<close> and \<open>halfSize\<close> replaced by those of the rectangle that
  \<open>getMonitorByRect\<close> gives for the stored state. For any other window it returns the
  stored object. The getter returns a value and writes nothing.
\<close>

theorem C10_currentState_getter:
  "(currentState_field w State = VString ''maximized'' \<longrightarrow>
      currentState getMonitorByRect w
        = Fresh_copy ((currentState_field w)
            (Center := VPoint (center (getMonitorByRect (currentState_field w))),
             HalfSize := VPoint (halfSize (getMonitorByRect (currentState_field w))))))
   \<and> (currentState_field w State \<noteq> VString ''maximized'' \<longrightarrow>
      currentState getMonitorByRect w = Stored_object (currentState_field w))"
  by (simp add: currentState_def Let_def)

theorem C10_witness:
  "currentState primary_monitor maximized_window
     = Fresh_copy ((createTemporaryState(State := VString ''maximized''))
         (Center := VPoint \<lparr>x = 960, y = 540\<rparr>, HalfSize := VPoint \<lparr>x = 960, y = 540\<rparr>))
   \<and> currentState primary_monitor (existing_window (''app'', ''main'') createTemporaryState 0)
     = Stored_object createTemporaryState"
proof -
  have a: "currentState_field maximized_window State = VString ''maximized''"
    by (simp add: maximized_window_def existing_window_def)
  have b: "currentState_field (existing_window (''app'', ''main'') createTemporaryState 0) State
             \<noteq> VString ''maximized''"
    by (simp add: existing_window_def)
  have c: "currentState_field maximized_window = createTemporaryState(State := VString ''maximized'')"
    by (simp add: maximized_window_def existing_window_def)
  have d: "currentState_field (existing_window (''app'', ''main'') createTemporaryState 0)
             = createTemporaryState"
    by (simp add: existing_window_def)
  from C10_currentState_getter [of maximized_window primary_monitor] a
  have e: "currentState primary_monitor maximized_window
        = Fresh_copy ((currentState_field maximized_window)
            (Center := VPoint (center (primary_monitor (currentState_field maximized_window))),
             HalfSize := VPoint (halfSize (primary_monitor (currentState_field maximized_window)))))"
    by blast
  from C10_currentState_getter
         [of "existing_window (''app'', ''main'') createTemporaryState 0" primary_monitor] b
  have f: "currentState primary_monitor (existing_window (''app'', ''main'') createTemporaryState 0)
        = Stored_object (currentState_field (existing_window (''app'', ''main'') createTemporaryState 0))"
    by blast
  from e f c d show ?thesis by (simp add: primary_monitor_def)
qed

lemma MOVE_eq: "MOVE = 1"
  by (simp add: MOVE_def)

lemma RESIZE_eq: "RESIZE = 2"
  by (simp add: RESIZE_def)

lemma odd_and_one: "odd a \<Longrightarrow> a AND (1::int) \<noteq> 0"
  by (simp add: and_one_eq odd_iff_mod_2_eq_one)

lemma or_move_and_move:
  "((a OR 1) OR b) AND (1::int) \<noteq> 0" "((a OR 3) OR b) AND (1::int) \<noteq> 0"
  by (rule odd_and_one, simp add: even_or_iff)+

lemma evaluateAxis_widened:
  "evaluateAxis \<lparr>x = 60, y = 50\<rparr> \<lparr>x = 100, y = 100\<rparr>
     \<lparr>center = \<lparr>x = 100, y = 100\<rparr>, halfSize = \<lparr>x = 50, y = 50\<rparr>\<rparr> X = 3"
  by (simp add: evaluateAxis_def MOVE_eq RESIZE_eq MINIMUM_RESIZE_CHANGE_def MINIMUM_MOVE_CHANGE_def)

lemma evaluateAxis_shifted:
  "evaluateAxis \<lparr>x = 50, y = 50\<rparr> \<lparr>x = 103, y = 100\<rparr>
     \<lparr>center = \<lparr>x = 100, y = 100\<rparr>, halfSize = \<lparr>x = 50, y = 50\<rparr>\<rparr> X = 1"
  by (simp add: evaluateAxis_def MOVE_eq RESIZE_eq MINIMUM_RESIZE_CHANGE_def MINIMUM_MOVE_CHANGE_def)

text \<open>
  C6, as the source has it. With display scaling, and a bounds change that started at
  center (100, 100) and half-size (50, 50), whatever its transform type so far: the sample
  with center (100, 100) and half-size (60, 50) is marked as resized and as moved on the
  x axis, since the center expected for a resize from one edge is 110, and the result is
  \<open>MOVE\<close> alone; the sample with center (103, 100) and half-size (50, 50) is \<open>MOVE\<close>
  alone. The samples are given by the bounds that \<open>checkBounds\<close> returns for the event.
\<close>

theorem C6_scaled_classification:
  assumes "startBounds boundsChange = \<lparr>center = \<lparr>x = 100, y = 100\<rparr>, halfSize = \<lparr>x = 50, y = 50\<rparr>\<rparr>"
    and "checkBounds isWin10 w widened = \<lparr>left = 40, top = 50, width = 120, height = 100\<rparr>"
    and "checkBounds isWin10 w shifted = \<lparr>left = 53, top = 50, width = 100, height = 100\<rparr>"
  shows "evaluateAxis \<lparr>x = 60, y = 50\<rparr> \<lparr>x = 100, y = 100\<rparr> (startBounds boundsChange) X = MOVE OR RESIZE
    \<and> fst (updateTransformType True isWin10 w widened boundsChange) = MOVE
    \<and> fst (updateTransformType True isWin10 w shifted boundsChange) = MOVE"
  using assms
  by (simp add: updateTransformType_def Let_def evaluateAxis_widened evaluateAxis_shifted
        or_move_and_move MOVE_eq RESIZE_eq)

theorem C6_witness:
  "fst (updateTransformType True False (existing_window (''app'', ''main'') createTemporaryState 0)
          widened_sample drag_start) = 1
   \<and> fst (updateTransformType True False (existing_window (''app'', ''main'') createTemporaryState 0)
          shifted_sample drag_start) = 1"
proof -
  let ?w = "existing_window (''app'', ''main'') createTemporaryState 0"
  have a: "startBounds drag_start = \<lparr>center = \<lparr>x = 100, y = 100\<rparr>, halfSize = \<lparr>x = 50, y = 50\<rparr>\<rparr>"
    by (simp add: drag_start_def)
  have b: "checkBounds False ?w widened_sample = \<lparr>left = 40, top = 50, width = 120, height = 100\<rparr>"
    by (simp add: checkBounds_def widened_sample_def)
  have c: "checkBounds False ?w shifted_sample = \<lparr>left = 53, top = 50, width = 100, height = 100\<rparr>"
    by (simp add: checkBounds_def shifted_sample_def)
  from C6_scaled_classification [OF a b c] show ?thesis by (simp add: MOVE_eq)
qed

text \<open>
  C6 as it is stated fails on its first sample: from a fresh bounds change the result is
  \<open>MOVE\<close>, which is not \<open>RESIZE\<close> and has the \<open>MOVE\<close> bit.
\<close>

theorem C6_counterexample:
  "fst (updateTransformType True False (existing_window (''app'', ''main'') createTemporaryState 0)
          widened_sample drag_start) = MOVE
   \<and> fst (updateTransformType True False (existing_window (''app'', ''main'') createTemporaryState 0)
          widened_sample drag_start) \<noteq> RESIZE
   \<and> fst (updateTransformType True False (existing_window (''app'', ''main'') createTemporaryState 0)
          widened_sample drag_start) AND MOVE \<noteq> 0"
  by (simp add: updateTransformType_def checkBounds_def existing_window_def widened_sample_def
      drag_start_def evaluateAxis_def MOVE_eq RESIZE_eq MINIMUM_RESIZE_CHANGE_def
      MINIMUM_MOVE_CHANGE_def)

section \<open>Transactions\<close>

lemma unpending: "pendingActions w = [] \<Longrightarrow> w\<lparr>pendingActions := []\<rparr> = w"
  by (cases w) simp

lemma sync_window_quiet:
  assumes "window_objects d this = Some w" "pendingActions w = []"
  shows "sync_window quiet this d = (Fulfilled, d)"
proof -
  from assms(2) have "w\<lparr>pendingActions := []\<rparr> = w" by (rule unpending)
  with assms show ?thesis
    by (simp add: sync_window_def sync_def quiet_def update_window_def map_upd_triv)
qed

lemma existing_fields:
  "pendingActions (existing_window i s g) = []"
  "snapGroup (existing_window i s g) = g"
  "identity (existing_window i s g) = i"
  by (simp_all add: existing_window_def)

lemma snapped_objects:
  "window_objects snapped_desktop window_A = Some (existing_window window_A createTemporaryState 0)"
  "window_objects snapped_desktop window_B = Some (existing_window window_B createTemporaryState 0)"
  "window_objects snapped_desktop window_C = Some (existing_window window_C createTemporaryState 0)"
  by (simp_all add: snapped_desktop_def window_A_def window_B_def window_C_def)

lemma snapped_fields:
  "groups snapped_desktop 0 = [window_A, window_B, window_C]"
  "next_object snapped_desktop = 1"
  "activeTransactions snapped_desktop = []"
  "debounced_log snapped_desktop = []"
  "native_log snapped_desktop = []"
  by (simp_all add: snapped_desktop_def)






section \<open>Group-change events\<close>

lemma sync_window_cases:
  "sync_window env this d = (r, d0) \<Longrightarrow>
     d0 = d \<or> (\<exists>w. window_objects d this = Some w
                  \<and> d0 = d\<lparr>window_objects := (window_objects d)(this \<mapsto> w\<lparr>pendingActions := []\<rparr>)\<rparr>)"
  by (auto simp: sync_window_def update_window_def split: option.splits outcome.splits)

lemma sync_window_frame:
  assumes "sync_window env this d = (r, d0)"
  shows "groups d0 = groups d" "activeTransactions d0 = activeTransactions d"
    "native_log d0 = native_log d" "debounced_log d0 = debounced_log d"
    "next_object d0 = next_object d"
    "map_option snapGroup (window_objects d0 i) = map_option snapGroup (window_objects d i)"
    "map_option identity (window_objects d0 i) = map_option identity (window_objects d i)"
  using sync_window_cases [OF assms] by auto

lemma setSnapGroup_fresh:
  assumes "window_objects d this = Some w" "grp \<noteq> snapGroup w" "groups d grp = []"
  shows "window_objects (snd (setSnapGroup env grp this d))
           = (window_objects d)(this \<mapsto> w\<lparr>prevGroup := Some (snapGroup w), snapGroup := grp\<rparr>)"
    and "groups (snd (setSnapGroup env grp this d))
           = (groups d)(snapGroup w := removeAll this (groups d (snapGroup w)), grp := [this])"
    and "debounced_log (snd (setSnapGroup env grp this d)) = debounced_log d"
  using assms
  by (auto simp: setSnapGroup_def addToSnapGroup_def addWindow_def update_window_def unsnap_def
        Let_def split: option.splits)

lemma new_group_fresh:
  assumes "window_objects d this = Some w" "snapGroup w < next_object d"
  shows "window_objects (snd (setSnapGroup env (next_object d) this (snd (new_DesktopSnapGroup d))))
           = (window_objects d)
               (this \<mapsto> w\<lparr>prevGroup := Some (snapGroup w), snapGroup := next_object d\<rparr>)"
    and "groups (snd (setSnapGroup env (next_object d) this (snd (new_DesktopSnapGroup d))))
           = (groups d)(snapGroup w := removeAll this (groups d (snapGroup w)), next_object d := [this])"
    and "debounced_log (snd (setSnapGroup env (next_object d) this (snd (new_DesktopSnapGroup d))))
           = debounced_log d"
proof -
  let ?d1 = "snd (new_DesktopSnapGroup d)"
  have a: "window_objects ?d1 this = Some w" using assms(1) by (simp add: new_DesktopSnapGroup_def)
  have b: "next_object d \<noteq> snapGroup w" using assms(2) by simp
  have c: "groups ?d1 (next_object d) = []" by (simp add: new_DesktopSnapGroup_def)
  have w: "window_objects ?d1 = window_objects d" by (simp add: new_DesktopSnapGroup_def)
  have g: "groups ?d1 = (groups d)(next_object d := [])" by (simp add: new_DesktopSnapGroup_def)
  have l: "debounced_log ?d1 = debounced_log d" by (simp add: new_DesktopSnapGroup_def)
  show "window_objects (snd (setSnapGroup env (next_object d) this ?d1))
           = (window_objects d)
               (this \<mapsto> w\<lparr>prevGroup := Some (snapGroup w), snapGroup := next_object d\<rparr>)"
    using setSnapGroup_fresh(1) [OF a b c, of env] by (simp add: w)
  show "groups (snd (setSnapGroup env (next_object d) this ?d1))
           = (groups d)(snapGroup w := removeAll this (groups d (snapGroup w)), next_object d := [this])"
    using setSnapGroup_fresh(2) [OF a b c, of env] b by (simp add: g fun_upd_twist)
  show "debounced_log (snd (setSnapGroup env (next_object d) this ?d1)) = debounced_log d"
    using setSnapGroup_fresh(3) [OF a b c, of env] by (simp add: l)
qed

lemma handleGroupChanged_leave:
  assumes "name event = sourceWindowName event" "uuid event = sourceWindowAppUuid event"
    and "reason event = ''leave''"
    and "sync_window env this d = (Fulfilled, d0)"
    and "window_objects d0 this = Some w0"
    and "filter (relevant (window_objects d0 (targetWindowAppUuid event, targetWindowName event)))
           (activeTransactions d0) = []"
  shows "handleGroupChanged localeCompare group_length env this event d
     = (if group_length (groups d0 (snapGroup w0)) > 1
           \<and> compareSnapAndEventWindowArrays localeCompare (groups d0 (snapGroup w0))
                (sourceGroup event @ [identity w0])
        then setSnapGroup env (next_object d0) this (snd (new_DesktopSnapGroup d0))
        else (Fulfilled, d0))"
  using assms
  by (simp add: handleGroupChanged_def group_changed_def Let_def new_DesktopSnapGroup_def)

lemma relevant_member:
  assumes "t \<in> set ts" "id_of (identity tw) \<in> id_of ` set (windows t)"
  shows "t \<in> set (filter (relevant (Some tw)) ts)"
  using assms by (auto simp: relevant_def list_ex_iff)

text \<open>The sorted comparison does not depend on the order of either array.\<close>

lemma mset_insert_sorted: "mset (insert_sorted cmp a xs) = add_mset a (mset xs)"
  by (induction xs) simp_all

lemma mset_sort_with: "mset (sort_with cmp xs) = mset xs"
  by (induction xs) (simp_all add: sort_with_def mset_insert_sorted)

lemma set_insert_sorted: "set (insert_sorted cmp a xs) = insert a (set xs)"
  by (induction xs) auto

lemma sorted_insert_sorted:
  assumes "consistent_order cmp" "sorted_wrt (\<lambda>a b. cmp a b \<le> 0) xs"
  shows "sorted_wrt (\<lambda>a b. cmp a b \<le> 0) (insert_sorted cmp a xs)"
  using assms(2)
proof (induction xs)
  case Nil
  then show ?case by simp
next
  case (Cons b bs)
  from assms(1) have tot: "cmp a b \<le> 0 \<or> cmp b a \<le> 0"
    and tr: "\<And>u v w. cmp u v \<le> 0 \<Longrightarrow> cmp v w \<le> 0 \<Longrightarrow> cmp u w \<le> 0"
    unfolding consistent_order_def by blast+
  show ?case
  proof (cases "cmp a b \<le> 0")
    case True
    with Cons.prems tr show ?thesis by auto
  next
    case False
    with tot have "cmp b a \<le> 0" by simp
    with Cons False show ?thesis by (auto simp: set_insert_sorted)
  qed
qed

lemma sorted_sort_with:
  "consistent_order cmp \<Longrightarrow> sorted_wrt (\<lambda>a b. cmp a b \<le> 0) (sort_with cmp xs)"
  by (induction xs) (simp_all add: sort_with_def sorted_insert_sorted)

lemma sorted_unique:
  assumes "consistent_order cmp"
  shows "sorted_wrt (\<lambda>a b. cmp a b \<le> 0) xs \<Longrightarrow> sorted_wrt (\<lambda>a b. cmp a b \<le> 0) ys
         \<Longrightarrow> mset xs = mset ys \<Longrightarrow> xs = ys"
proof (induction xs arbitrary: ys)
  case Nil
  then show ?case by simp
next
  case (Cons a xs)
  from Cons.prems(3) obtain b ys' where ys: "ys = b # ys'" by (cases ys) auto
  from assms have anti: "\<And>u v. cmp u v \<le> 0 \<Longrightarrow> cmp v u \<le> 0 \<Longrightarrow> u = v"
    unfolding consistent_order_def by blast
  have "a = b"
  proof (rule ccontr)
    assume ne: "a \<noteq> b"
    from Cons.prems(3) ys have "a \<in># mset (b # ys')"
      by (metis mset.simps(2) union_single_eq_member)
    with ne have "a \<in> set ys'" by simp
    with Cons.prems(2) ys have 1: "cmp b a \<le> 0" by simp
    from Cons.prems(3) ys have "b \<in># mset (a # xs)"
      by (metis mset.simps(2) union_single_eq_member)
    with ne have "b \<in> set xs" by simp
    with Cons.prems(1) have 2: "cmp a b \<le> 0" by simp
    from anti [OF 2 1] ne show False by simp
  qed
  with Cons.prems ys have "mset xs = mset ys'" "sorted_wrt (\<lambda>a b. cmp a b \<le> 0) xs"
    "sorted_wrt (\<lambda>a b. cmp a b \<le> 0) ys'"
    by simp_all
  with Cons.IH have "xs = ys'" by blast
  with \<open>a = b\<close> ys show ?case by simp
qed

lemma sort_with_permutation:
  assumes "consistent_order cmp" "mset xs = mset ys"
  shows "sort_with cmp xs = sort_with cmp ys"
  using sorted_unique [OF assms(1) sorted_sort_with [OF assms(1)] sorted_sort_with [OF assms(1)],
          of xs ys] assms(2)
  by (simp add: mset_sort_with)

lemma consistent_compare_identities:
  assumes "consistent_order localeCompare"
  shows "consistent_order (compare_identities localeCompare)"
proof -
  from assms have tot: "\<And>a b. localeCompare a b \<le> 0 \<or> localeCompare b a \<le> 0"
    and anti: "\<And>a b. localeCompare a b \<le> 0 \<Longrightarrow> localeCompare b a \<le> 0 \<Longrightarrow> a = b"
    and tr: "\<And>a b c. localeCompare a b \<le> 0 \<Longrightarrow> localeCompare b c \<le> 0 \<Longrightarrow> localeCompare a c \<le> 0"
    unfolding consistent_order_def by blast+
  have 1: "compare_identities localeCompare a b \<le> 0 \<or> compare_identities localeCompare b a \<le> 0"
    for a b
    using tot by (auto simp: compare_identities_def)
  have 2: "a = b"
    if "compare_identities localeCompare a b \<le> 0" "compare_identities localeCompare b a \<le> 0"
    for a b
    using that anti by (auto simp: compare_identities_def prod_eq_iff split: if_splits)
  have 3: "compare_identities localeCompare a c \<le> 0"
    if "compare_identities localeCompare a b \<le> 0" "compare_identities localeCompare b c \<le> 0"
    for a b c
    using that by (auto simp: compare_identities_def split: if_splits dest: tr anti)
  from 1 2 3 show ?thesis unfolding consistent_order_def by blast
qed

lemma compare_order_independent:
  assumes "consistent_order localeCompare"
    and "mset snapWindows' = mset snapWindows" and "mset eventWindows' = mset eventWindows"
  shows "compareSnapAndEventWindowArrays localeCompare snapWindows' eventWindows'
         = compareSnapAndEventWindowArrays localeCompare snapWindows eventWindows"
proof -
  note c = consistent_compare_identities [OF assms(1)]
  have "mset (map (\<lambda>w. (fst w, snd w)) eventWindows') = mset (map (\<lambda>w. (fst w, snd w)) eventWindows)"
    using assms(3) by simp
  from sort_with_permutation [OF c assms(2)] sort_with_permutation [OF c this]
  show ?thesis by (simp add: compareSnapAndEventWindowArrays_def)
qed

lemma consistent_lexicographic: "consistent_order lexicographic"
  by (auto simp: consistent_order_def lexicographic_def split: if_splits)

text \<open>The scenarios, evaluated.\<close>

lemma sorted_members:
  "sort_with (compare_identities lexicographic) [window_A, window_B, window_C]
     = [window_A, window_B, window_C]"
  "sort_with (compare_identities lexicographic) [(''app'', ''B''), (''app'', ''A''), (''app'', ''C'')]
     = [window_A, window_B, window_C]"
  by (simp_all add: sort_with_def compare_identities_def lexicographic_def
        window_A_def window_B_def window_C_def)

lemma compare_members:
  "compareSnapAndEventWindowArrays lexicographic [window_A, window_B, window_C]
     ([(''app'', ''B''), (''app'', ''A'')] @ [window_C])"
  using sorted_members
  by (simp add: compareSnapAndEventWindowArrays_def window_C_def)

lemma in_transaction_fields:
  "window_objects desktop_in_transaction = window_objects snapped_desktop"
  "groups desktop_in_transaction = groups snapped_desktop"
  "next_object desktop_in_transaction = 2"
  "activeTransactions desktop_in_transaction = [\<lparr>object = 1, windows = [window_C]\<rparr>]"
  "debounced_log desktop_in_transaction = []"
  "native_log desktop_in_transaction = []"
  by (simp_all add: desktop_in_transaction_def snapped_fields)

lemma relevant_C:
  "relevant (Some (existing_window window_C createTemporaryState 0)) \<lparr>object = n, windows = [window_C]\<rparr>"
  "\<not> relevant (Some (existing_window window_A createTemporaryState 0)) \<lparr>object = n, windows = [window_C]\<rparr>"
  by (simp_all add: relevant_def existing_fields id_of_def window_A_def window_C_def)

lemma leave_event_fields:
  "name (leave_event n t) = n" "uuid (leave_event n t) = ''app''"
  "sourceWindowName (leave_event n t) = ''C''" "sourceWindowAppUuid (leave_event n t) = ''app''"
  "targetWindowName (leave_event n t) = t" "targetWindowAppUuid (leave_event n t) = ''app''"
  "reason (leave_event n t) = ''leave''"
  "sourceGroup (leave_event n t) = [(''app'', ''B''), (''app'', ''A'')]"
  by (simp_all add: leave_event_def)

lemma handleGroupChanged_processed:
  assumes "name event = sourceWindowName event" "uuid event = sourceWindowAppUuid event"
    and "sync_window env this d = (Fulfilled, d0)"
    and "filter (relevant (window_objects d0 (targetWindowAppUuid event, targetWindowName event)))
           (activeTransactions d0) = []"
  shows "handleGroupChanged localeCompare group_length env this event d
           = group_changed localeCompare group_length env this event d0"
  using assms by (simp add: handleGroupChanged_def Let_def)

text \<open>
  C5, as the source has it. The window that handles the event has its \<open>sync\<close> fulfilled.
  When it is the event's source window and the target window of the event is a window
  object that belongs to an active transaction, the event is not processed, whatever its
  reason: the groups, the group of every window and the native log are as before, and
  \<open>postpone\<close> is called on the debounced removal of every active transaction that has
  the target window. When the handling window is not the source window, the handler
  returns at once and nothing is postponed. When it is the source window and no active
  transaction has the target window, the event goes on to the dispatch on its reason,
  whatever transactions the source window itself is in; a \<open>leave\<close> whose group matches
  then moves the window into a new group, and nothing is postponed.
\<close>

theorem C5_event_of_transaction_window:
  assumes "sync_window env this d = (Fulfilled, d0)"
  shows "(\<forall>tw t. name event = sourceWindowName event \<and> uuid event = sourceWindowAppUuid event
            \<and> window_objects d0 (targetWindowAppUuid event, targetWindowName event) = Some tw
            \<and> t \<in> set (activeTransactions d)
            \<and> id_of (identity tw) \<in> id_of ` set (windows t) \<longrightarrow>
            handleGroupChanged localeCompare group_length env this event d
              = (Fulfilled,
                 d0\<lparr>debounced_log := debounced_log d
                       @ map (\<lambda>t. (object t, Postpone))
                           (filter (relevant (Some tw)) (activeTransactions d))\<rparr>)
            \<and> (object t, Postpone)
                 \<in> set (debounced_log (snd (handleGroupChanged localeCompare group_length env this event d)))
            \<and> groups (snd (handleGroupChanged localeCompare group_length env this event d)) = groups d
            \<and> native_log (snd (handleGroupChanged localeCompare group_length env this event d))
                 = native_log d
            \<and> (\<forall>i. map_option snapGroup
                       (window_objects (snd (handleGroupChanged localeCompare group_length env this event d)) i)
                     = map_option snapGroup (window_objects d i)))
    \<and> (name event \<noteq> sourceWindowName event \<or> uuid event \<noteq> sourceWindowAppUuid event \<longrightarrow>
            handleGroupChanged localeCompare group_length env this event d = (Fulfilled, d))
    \<and> (name event = sourceWindowName event \<and> uuid event = sourceWindowAppUuid event
        \<and> filter (relevant (window_objects d0 (targetWindowAppUuid event, targetWindowName event)))
              (activeTransactions d) = [] \<longrightarrow>
            handleGroupChanged localeCompare group_length env this event d
              = group_changed localeCompare group_length env this event d0)
    \<and> (\<forall>w. name event = sourceWindowName event \<and> uuid event = sourceWindowAppUuid event
            \<and> filter (relevant (window_objects d0 (targetWindowAppUuid event, targetWindowName event)))
                 (activeTransactions d) = []
            \<and> reason event = ''leave''
            \<and> window_objects d this = Some w \<and> snapGroup w < next_object d
            \<and> group_length (groups d (snapGroup w)) > 1
            \<and> compareSnapAndEventWindowArrays localeCompare (groups d (snapGroup w))
                 (sourceGroup event @ [identity w]) \<longrightarrow>
            map_option snapGroup
              (window_objects (snd (handleGroupChanged localeCompare group_length env this event d)) this)
              = Some (next_object d)
          \<and> debounced_log (snd (handleGroupChanged localeCompare group_length env this event d))
              = debounced_log d)"
proof -
  note fr = sync_window_frame [OF assms]
  have c1: "handleGroupChanged localeCompare group_length env this event d
              = (Fulfilled,
                 d0\<lparr>debounced_log := debounced_log d
                       @ map (\<lambda>t. (object t, Postpone))
                           (filter (relevant (Some tw)) (activeTransactions d))\<rparr>)
            \<and> (object t, Postpone)
                 \<in> set (debounced_log (snd (handleGroupChanged localeCompare group_length env this event d)))
            \<and> groups (snd (handleGroupChanged localeCompare group_length env this event d)) = groups d
            \<and> native_log (snd (handleGroupChanged localeCompare group_length env this event d))
                 = native_log d
            \<and> (\<forall>i. map_option snapGroup
                       (window_objects (snd (handleGroupChanged localeCompare group_length env this event d)) i)
                     = map_option snapGroup (window_objects d i))"
    if h: "name event = sourceWindowName event \<and> uuid event = sourceWindowAppUuid event
            \<and> window_objects d0 (targetWindowAppUuid event, targetWindowName event) = Some tw
            \<and> t \<in> set (activeTransactions d)
            \<and> id_of (identity tw) \<in> id_of ` set (windows t)" for tw t
  proof -
    from h have n: "name event = sourceWindowName event" and u: "uuid event = sourceWindowAppUuid event"
      and tg: "window_objects d0 (targetWindowAppUuid event, targetWindowName event) = Some tw"
      and tm: "t \<in> set (activeTransactions d)" and ti: "id_of (identity tw) \<in> id_of ` set (windows t)"
      by blast+
    from relevant_member [OF tm ti]
    have mem: "t \<in> set (filter (relevant (Some tw)) (activeTransactions d))" .
    then have ne: "filter (relevant (Some tw)) (activeTransactions d) \<noteq> []"
      by (metis empty_iff empty_set)
    have run: "handleGroupChanged localeCompare group_length env this event d
              = (Fulfilled,
                 d0\<lparr>debounced_log := debounced_log d
                       @ map (\<lambda>t. (object t, Postpone))
                           (filter (relevant (Some tw)) (activeTransactions d))\<rparr>)"
      using n u assms tg ne fr(2,4) by (simp add: handleGroupChanged_def Let_def)
    from mem have log: "(object t, Postpone)
        \<in> set (debounced_log d @ map (\<lambda>t. (object t, Postpone))
                           (filter (relevant (Some tw)) (activeTransactions d)))"
      by auto
    show ?thesis using run log fr(1,3,6) by simp
  qed
  have c2: "handleGroupChanged localeCompare group_length env this event d = (Fulfilled, d)"
    if "name event \<noteq> sourceWindowName event \<or> uuid event \<noteq> sourceWindowAppUuid event"
    using that by (auto simp: handleGroupChanged_def)
  have c3: "handleGroupChanged localeCompare group_length env this event d
              = group_changed localeCompare group_length env this event d0"
    if h: "name event = sourceWindowName event \<and> uuid event = sourceWindowAppUuid event
        \<and> filter (relevant (window_objects d0 (targetWindowAppUuid event, targetWindowName event)))
              (activeTransactions d) = []"
  proof -
    from h have n: "name event = sourceWindowName event" and u: "uuid event = sourceWindowAppUuid event"
      and f: "filter (relevant (window_objects d0 (targetWindowAppUuid event, targetWindowName event)))
              (activeTransactions d0) = []"
      by (simp_all add: fr(2))
    from handleGroupChanged_processed [OF n u assms f] show ?thesis .
  qed
  have c4: "map_option snapGroup
              (window_objects (snd (handleGroupChanged localeCompare group_length env this event d)) this)
              = Some (next_object d)
          \<and> debounced_log (snd (handleGroupChanged localeCompare group_length env this event d))
              = debounced_log d"
    if h: "name event = sourceWindowName event \<and> uuid event = sourceWindowAppUuid event
            \<and> filter (relevant (window_objects d0 (targetWindowAppUuid event, targetWindowName event)))
                 (activeTransactions d) = []
            \<and> reason event = ''leave''
            \<and> window_objects d this = Some w \<and> snapGroup w < next_object d
            \<and> group_length (groups d (snapGroup w)) > 1
            \<and> compareSnapAndEventWindowArrays localeCompare (groups d (snapGroup w))
                 (sourceGroup event @ [identity w])" for w
  proof -
    from h have n: "name event = sourceWindowName event" and u: "uuid event = sourceWindowAppUuid event"
      and f: "filter (relevant (window_objects d0 (targetWindowAppUuid event, targetWindowName event)))
              (activeTransactions d0) = []"
      and r: "reason event = ''leave''" and w: "window_objects d this = Some w"
      and lt: "snapGroup w < next_object d"
      and c: "group_length (groups d (snapGroup w)) > 1
            \<and> compareSnapAndEventWindowArrays localeCompare (groups d (snapGroup w))
                 (sourceGroup event @ [identity w])"
      by (simp_all add: fr(2))
    from fr(6) [of this] fr(7) [of this] w
    obtain w0 where w0: "window_objects d0 this = Some w0" "snapGroup w0 = snapGroup w"
      "identity w0 = identity w"
      by auto
    have fresh: "snapGroup w0 < next_object d0" using lt w0(2) fr(5) by simp
    from c have c0: "group_length (groups d0 (snapGroup w0)) > 1
            \<and> compareSnapAndEventWindowArrays localeCompare (groups d0 (snapGroup w0))
                 (sourceGroup event @ [identity w0])"
      by (simp add: w0 fr(1))
    note handleGroupChanged_leave [OF n u r assms w0(1) f, of localeCompare group_length]
    also note if_P [OF c0]
    finally have run: "handleGroupChanged localeCompare group_length env this event d
        = setSnapGroup env (next_object d0) this (snd (new_DesktopSnapGroup d0))" .
    from new_group_fresh(1,3) [OF w0(1) fresh, of env] show ?thesis
      by (simp add: run fr(4,5))
  qed
  have a1: "\<forall>tw t. name event = sourceWindowName event \<and> uuid event = sourceWindowAppUuid event
            \<and> window_objects d0 (targetWindowAppUuid event, targetWindowName event) = Some tw
            \<and> t \<in> set (activeTransactions d)
            \<and> id_of (identity tw) \<in> id_of ` set (windows t) \<longrightarrow>
            handleGroupChanged localeCompare group_length env this event d
              = (Fulfilled,
                 d0\<lparr>debounced_log := debounced_log d
                       @ map (\<lambda>t. (object t, Postpone))
                           (filter (relevant (Some tw)) (activeTransactions d))\<rparr>)
            \<and> (object t, Postpone)
                 \<in> set (debounced_log (snd (handleGroupChanged localeCompare group_length env this event d)))
            \<and> groups (snd (handleGroupChanged localeCompare group_length env this event d)) = groups d
            \<and> native_log (snd (handleGroupChanged localeCompare group_length env this event d))
                 = native_log d
            \<and> (\<forall>i. map_option snapGroup
                       (window_objects (snd (handleGroupChanged localeCompare group_length env this event d)) i)
                     = map_option snapGroup (window_objects d i))"
    by (intro allI impI) (rule c1)
  have a2: "name event \<noteq> sourceWindowName event \<or> uuid event \<noteq> sourceWindowAppUuid event \<longrightarrow>
            handleGroupChanged localeCompare group_length env this event d = (Fulfilled, d)"
    by (intro impI) (rule c2)
  have a3: "name event = sourceWindowName event \<and> uuid event = sourceWindowAppUuid event
        \<and> filter (relevant (window_objects d0 (targetWindowAppUuid event, targetWindowName event)))
              (activeTransactions d) = [] \<longrightarrow>
            handleGroupChanged localeCompare group_length env this event d
              = group_changed localeCompare group_length env this event d0"
    by (intro impI) (rule c3)
  have a4: "\<forall>w. name event = sourceWindowName event \<and> uuid event = sourceWindowAppUuid event
            \<and> filter (relevant (window_objects d0 (targetWindowAppUuid event, targetWindowName event)))
                 (activeTransactions d) = []
            \<and> reason event = ''leave''
            \<and> window_objects d this = Some w \<and> snapGroup w < next_object d
            \<and> group_length (groups d (snapGroup w)) > 1
            \<and> compareSnapAndEventWindowArrays localeCompare (groups d (snapGroup w))
                 (sourceGroup event @ [identity w]) \<longrightarrow>
            map_option snapGroup
              (window_objects (snd (handleGroupChanged localeCompare group_length env this event d)) this)
              = Some (next_object d)
          \<and> debounced_log (snd (handleGroupChanged localeCompare group_length env this event d))
              = debounced_log d"
    by (intro allI impI) (rule c4)
  show ?thesis by (intro conjI) (rule a1, rule a2, rule a3, rule a4)
qed

theorem C5_witness:
  "handleGroupChanged lexicographic length quiet window_C (leave_event ''C'' ''C'') desktop_in_transaction
     = (Fulfilled, desktop_in_transaction\<lparr>debounced_log := [(1, Postpone)]\<rparr>)
   \<and> handleGroupChanged lexicographic length quiet window_A (leave_event ''A'' ''C'') desktop_in_transaction
     = (Fulfilled, desktop_in_transaction)
   \<and> map_option snapGroup
       (window_objects
          (snd (handleGroupChanged lexicographic length quiet window_C (leave_event ''C'' ''A'')
                  desktop_in_transaction)) window_C) = Some 2"
proof -
  let ?w = "existing_window window_C createTemporaryState 0"
  let ?t = "\<lparr>object = 1, windows = [window_C]\<rparr>"
  let ?d = desktop_in_transaction
  have s: "sync_window quiet window_C ?d = (Fulfilled, ?d)"
    by (rule sync_window_quiet [where w = ?w])
       (simp_all add: in_transaction_fields snapped_objects existing_fields)
  have s': "sync_window quiet window_A ?d = (Fulfilled, ?d)"
    by (rule sync_window_quiet [where w = "existing_window window_A createTemporaryState 0"])
       (simp_all add: in_transaction_fields snapped_objects existing_fields)
  have tw: "window_objects ?d
              (targetWindowAppUuid (leave_event n ''C''), targetWindowName (leave_event n ''C'')) = Some ?w"
    for n
    using snapped_objects(3) by (simp add: leave_event_fields in_transaction_fields window_C_def)
  have t: "?t \<in> set (activeTransactions ?d)"
    by (simp add: in_transaction_fields)
  have i: "id_of (identity ?w) \<in> id_of ` set (windows ?t)"
    by (simp add: existing_fields)
  have f: "filter (relevant (Some ?w)) (activeTransactions ?d) = [?t]"
    by (simp add: in_transaction_fields relevant_C)
  have self: "name (leave_event ''C'' t') = sourceWindowName (leave_event ''C'' t')
      \<and> uuid (leave_event ''C'' t') = sourceWindowAppUuid (leave_event ''C'' t')" for t'
    by (simp add: leave_event_fields)
  have other: "name (leave_event ''A'' ''C'') \<noteq> sourceWindowName (leave_event ''A'' ''C'')
      \<or> uuid (leave_event ''A'' ''C'') \<noteq> sourceWindowAppUuid (leave_event ''A'' ''C'')"
    by (simp add: leave_event_fields)
  have tA: "window_objects ?d (targetWindowAppUuid (leave_event ''C'' ''A''),
                               targetWindowName (leave_event ''C'' ''A''))
              = Some (existing_window window_A createTemporaryState 0)"
    using snapped_objects(1) by (simp add: leave_event_fields in_transaction_fields window_A_def)
  have none: "filter (relevant (window_objects ?d (targetWindowAppUuid (leave_event ''C'' ''A''),
                               targetWindowName (leave_event ''C'' ''A''))))
             (activeTransactions ?d) = []"
    unfolding tA by (simp add: in_transaction_fields relevant_C)
  have w: "window_objects ?d window_C = Some ?w"
    by (simp add: in_transaction_fields snapped_objects)
  have m: "length (groups ?d (snapGroup ?w)) > 1
      \<and> compareSnapAndEventWindowArrays lexicographic (groups ?d (snapGroup ?w))
           (sourceGroup (leave_event ''C'' ''A'') @ [identity ?w])"
    using compare_members
    by (simp add: leave_event_fields existing_fields in_transaction_fields snapped_fields)
  have r: "reason (leave_event ''C'' ''A'') = ''leave''"
    by (simp add: leave_event_fields)
  have fresh: "snapGroup ?w < next_object ?d"
    by (simp add: existing_fields in_transaction_fields)
  note thmC = C5_event_of_transaction_window
         [OF s, where localeCompare = lexicographic and group_length = length]
  from thmC [where event = "leave_event ''C'' ''C''", THEN conjunct1, THEN spec, THEN spec, THEN mp,
         of ?w ?t, THEN conjunct1] self tw t i
  have a: "handleGroupChanged lexicographic length quiet window_C (leave_event ''C'' ''C'') ?d
           = (Fulfilled,
              ?d\<lparr>debounced_log := debounced_log ?d
                 @ map (\<lambda>t. (object t, Postpone))
                     (filter (relevant (Some ?w)) (activeTransactions ?d))\<rparr>)"
    by simp
  from C5_event_of_transaction_window
         [OF s', where localeCompare = lexicographic and group_length = length
            and event = "leave_event ''A'' ''C''", THEN conjunct2, THEN conjunct1, THEN mp, OF other]
  have b: "handleGroupChanged lexicographic length quiet window_A (leave_event ''A'' ''C'') ?d
             = (Fulfilled, ?d)" .
  from thmC [where event = "leave_event ''C'' ''A''", THEN conjunct2, THEN conjunct2, THEN conjunct2,
         THEN spec, THEN mp, of ?w, THEN conjunct1] self none r w fresh m
  have c: "map_option snapGroup
       (window_objects
          (snd (handleGroupChanged lexicographic length quiet window_C (leave_event ''C'' ''A'') ?d))
          window_C) = Some (next_object ?d)"
    by simp
  from a b c f show ?thesis by (simp add: in_transaction_fields)
qed

text \<open>
  C5 as it is stated fails while the transaction on window C is active: the event that C
  itself sources, with target window A, is processed. C, a window of the transaction,
  moves from group 0 to the new group 2, and nothing is postponed.
\<close>

theorem C5_counterexample:
  "activeTransactions desktop_in_transaction = [\<lparr>object = 1, windows = [window_C]\<rparr>]
   \<and> debounced_log desktop_in_transaction = []
   \<and> map_option snapGroup (window_objects desktop_in_transaction window_C) = Some 0
   \<and> map_option snapGroup
       (window_objects
          (snd (handleGroupChanged lexicographic length quiet window_C (leave_event ''C'' ''A'')
                  desktop_in_transaction)) window_C) = Some 2
   \<and> debounced_log
       (snd (handleGroupChanged lexicographic length quiet window_C (leave_event ''C'' ''A'')
               desktop_in_transaction)) = []"
proof -
  let ?w = "existing_window window_C createTemporaryState 0"
  let ?d = desktop_in_transaction
  let ?d1 = "snd (new_DesktopSnapGroup ?d)"
  have s: "sync_window quiet window_C ?d = (Fulfilled, ?d)"
    by (rule sync_window_quiet [where w = ?w])
       (simp_all add: in_transaction_fields snapped_objects existing_fields)
  have w: "window_objects ?d window_C = Some ?w"
    by (simp add: in_transaction_fields snapped_objects)
  have tw: "window_objects ?d (targetWindowAppUuid (leave_event ''C'' ''A''),
                               targetWindowName (leave_event ''C'' ''A''))
              = Some (existing_window window_A createTemporaryState 0)"
    using snapped_objects(1) by (simp add: leave_event_fields in_transaction_fields window_A_def)
  have f: "filter (relevant (window_objects ?d (targetWindowAppUuid (leave_event ''C'' ''A''),
                               targetWindowName (leave_event ''C'' ''A''))))
             (activeTransactions ?d) = []"
    unfolding tw by (simp add: in_transaction_fields relevant_C)
  have run: "handleGroupChanged lexicographic length quiet window_C (leave_event ''C'' ''A'') ?d
     = setSnapGroup quiet (next_object ?d) window_C ?d1"
    using handleGroupChanged_leave
            [OF _ _ _ s w f, where localeCompare = lexicographic and group_length = length]
          compare_members
    by (simp add: leave_event_fields existing_fields in_transaction_fields snapped_fields window_C_def)
  have fresh: "snapGroup ?w < next_object ?d"
    by (simp add: existing_fields in_transaction_fields)
  from new_group_fresh(1) [OF w fresh, of quiet]
  have moved: "map_option snapGroup
       (window_objects (snd (setSnapGroup quiet (next_object ?d) window_C ?d1)) window_C) = Some 2"
    by (simp add: in_transaction_fields)
  from new_group_fresh(3) [OF w fresh, of quiet]
  have log: "debounced_log (snd (setSnapGroup quiet (next_object ?d) window_C ?d1)) = []"
    by (simp add: in_transaction_fields)
  from run moved log w show ?thesis
    by (simp add: in_transaction_fields existing_fields)
qed

text \<open>
  C7. A \<open>leave\<close> event is delivered to a window object of the store, in one of whose
  windows array the object is; the event carries the identity of the window it is
  delivered to. The \<open>sync\<close> of the window is fulfilled and the target window of the event
  is in no active transaction. Then: a window that is not the source window of the event
  does nothing. The source window, if the \<open>length\<close> of its group is more than 1 and the
  windows of its group match the event's source group plus the window itself, ends in a
  new group whose only window it is, is no longer in its former group, and no other
  window object is touched. Otherwise the groups and the group of every window are as
  before. The match does not depend on the order of either array, as long as
  \<open>localeCompare\<close> is a consistent order.
\<close>

theorem C7_leave_event:
  assumes "window_objects d this = Some w" and "snapGroup w < next_object d"
    and "this = (uuid event, name event)"
    and "reason event = ''leave''"
    and "sync_window env this d = (Fulfilled, d0)"
    and "filter (relevant (window_objects d0 (targetWindowAppUuid event, targetWindowName event)))
           (activeTransactions d0) = []"
  shows "(this \<noteq> (sourceWindowAppUuid event, sourceWindowName event) \<longrightarrow>
            handleGroupChanged localeCompare group_length env this event d = (Fulfilled, d))
    \<and> (this = (sourceWindowAppUuid event, sourceWindowName event)
        \<and> group_length (groups d (snapGroup w)) > 1
        \<and> compareSnapAndEventWindowArrays localeCompare (groups d (snapGroup w))
             (sourceGroup event @ [identity w]) \<longrightarrow>
            map_option snapGroup
              (window_objects (snd (handleGroupChanged localeCompare group_length env this event d)) this)
              = Some (next_object d)
          \<and> groups (snd (handleGroupChanged localeCompare group_length env this event d)) (next_object d)
              = [this]
          \<and> this \<notin> set (groups (snd (handleGroupChanged localeCompare group_length env this event d))
                            (snapGroup w))
          \<and> (\<forall>other. other \<noteq> this \<longrightarrow>
                window_objects (snd (handleGroupChanged localeCompare group_length env this event d)) other
                  = window_objects d other))
    \<and> (this = (sourceWindowAppUuid event, sourceWindowName event)
        \<and> \<not> (group_length (groups d (snapGroup w)) > 1
              \<and> compareSnapAndEventWindowArrays localeCompare (groups d (snapGroup w))
                   (sourceGroup event @ [identity w])) \<longrightarrow>
            handleGroupChanged localeCompare group_length env this event d = (Fulfilled, d0)
          \<and> groups d0 = groups d
          \<and> (\<forall>i. map_option snapGroup (window_objects d0 i) = map_option snapGroup (window_objects d i)))
    \<and> (consistent_order localeCompare \<longrightarrow>
          (\<forall>members reported.
              mset members = mset (groups d (snapGroup w))
              \<and> mset reported = mset (sourceGroup event @ [identity w]) \<longrightarrow>
              compareSnapAndEventWindowArrays localeCompare members reported
                = compareSnapAndEventWindowArrays localeCompare (groups d (snapGroup w))
                    (sourceGroup event @ [identity w])))"
proof -
  note fr = sync_window_frame [OF assms(5)]
  from fr(6) [of this] fr(7) [of this] assms(1)
  obtain w0 where w0: "window_objects d0 this = Some w0" "snapGroup w0 = snapGroup w"
    "identity w0 = identity w"
    by auto
  from sync_window_cases [OF assms(5)] have others: "window_objects d0 other = window_objects d other"
    if "other \<noteq> this" for other
    using that by auto
  have fresh: "snapGroup w0 < next_object d0" using assms(2) w0(2) fr(5) by simp
  have dup: "handleGroupChanged localeCompare group_length env this event d = (Fulfilled, d)"
    if "this \<noteq> (sourceWindowAppUuid event, sourceWindowName event)"
    using that assms(3) by (auto simp: handleGroupChanged_def)
  have run: "handleGroupChanged localeCompare group_length env this event d
     = (if group_length (groups d (snapGroup w)) > 1
           \<and> compareSnapAndEventWindowArrays localeCompare (groups d (snapGroup w))
                (sourceGroup event @ [identity w])
        then setSnapGroup env (next_object d) this (snd (new_DesktopSnapGroup d0))
        else (Fulfilled, d0))"
    if "this = (sourceWindowAppUuid event, sourceWindowName event)"
  proof -
    from that assms(3) have n: "name event = sourceWindowName event"
      and u: "uuid event = sourceWindowAppUuid event"
      by simp_all
    from handleGroupChanged_leave [OF n u assms(4,5) w0(1) assms(6), of localeCompare group_length]
    show ?thesis by (simp add: w0 fr)
  qed
  note ng = new_group_fresh [OF w0(1) fresh, of env]
  have moved: "map_option snapGroup
              (window_objects (snd (setSnapGroup env (next_object d) this (snd (new_DesktopSnapGroup d0)))) this)
              = Some (next_object d)
          \<and> groups (snd (setSnapGroup env (next_object d) this (snd (new_DesktopSnapGroup d0)))) (next_object d)
              = [this]
          \<and> this \<notin> set (groups (snd (setSnapGroup env (next_object d) this (snd (new_DesktopSnapGroup d0))))
                            (snapGroup w))
          \<and> (\<forall>other. other \<noteq> this \<longrightarrow>
                window_objects (snd (setSnapGroup env (next_object d) this (snd (new_DesktopSnapGroup d0)))) other
                  = window_objects d other)"
    using ng(1,2) fresh others by (simp add: fr w0)
  have indep: "compareSnapAndEventWindowArrays localeCompare members reported
                = compareSnapAndEventWindowArrays localeCompare (groups d (snapGroup w))
                    (sourceGroup event @ [identity w])"
    if "consistent_order localeCompare" "mset members = mset (groups d (snapGroup w))"
      "mset reported = mset (sourceGroup event @ [identity w])" for members reported
    using that by (rule compare_order_independent)
  have c1: "this \<noteq> (sourceWindowAppUuid event, sourceWindowName event) \<longrightarrow>
            handleGroupChanged localeCompare group_length env this event d = (Fulfilled, d)"
    using dup by blast
  have c2: "this = (sourceWindowAppUuid event, sourceWindowName event)
        \<and> group_length (groups d (snapGroup w)) > 1
        \<and> compareSnapAndEventWindowArrays localeCompare (groups d (snapGroup w))
             (sourceGroup event @ [identity w]) \<longrightarrow>
            map_option snapGroup
              (window_objects (snd (handleGroupChanged localeCompare group_length env this event d)) this)
              = Some (next_object d)
          \<and> groups (snd (handleGroupChanged localeCompare group_length env this event d)) (next_object d)
              = [this]
          \<and> this \<notin> set (groups (snd (handleGroupChanged localeCompare group_length env this event d))
                            (snapGroup w))
          \<and> (\<forall>other. other \<noteq> this \<longrightarrow>
                window_objects (snd (handleGroupChanged localeCompare group_length env this event d)) other
                  = window_objects d other)"
  proof (intro impI)
    assume a: "this = (sourceWindowAppUuid event, sourceWindowName event)
        \<and> group_length (groups d (snapGroup w)) > 1
        \<and> compareSnapAndEventWindowArrays localeCompare (groups d (snapGroup w))
             (sourceGroup event @ [identity w])"
    then have s: "this = (sourceWindowAppUuid event, sourceWindowName event)"
      and c: "group_length (groups d (snapGroup w)) > 1
        \<and> compareSnapAndEventWindowArrays localeCompare (groups d (snapGroup w))
             (sourceGroup event @ [identity w])"
      by blast+
    note run [OF s]
    also note if_P [OF c]
    finally have "handleGroupChanged localeCompare group_length env this event d
        = setSnapGroup env (next_object d) this (snd (new_DesktopSnapGroup d0))" .
    then show "map_option snapGroup
              (window_objects (snd (handleGroupChanged localeCompare group_length env this event d)) this)
              = Some (next_object d)
          \<and> groups (snd (handleGroupChanged localeCompare group_length env this event d)) (next_object d)
              = [this]
          \<and> this \<notin> set (groups (snd (handleGroupChanged localeCompare group_length env this event d))
                            (snapGroup w))
          \<and> (\<forall>other. other \<noteq> this \<longrightarrow>
                window_objects (snd (handleGroupChanged localeCompare group_length env this event d)) other
                  = window_objects d other)"
      using moved by simp
  qed
  have c3: "this = (sourceWindowAppUuid event, sourceWindowName event)
        \<and> \<not> (group_length (groups d (snapGroup w)) > 1
              \<and> compareSnapAndEventWindowArrays localeCompare (groups d (snapGroup w))
                   (sourceGroup event @ [identity w])) \<longrightarrow>
            handleGroupChanged localeCompare group_length env this event d = (Fulfilled, d0)
          \<and> groups d0 = groups d
          \<and> (\<forall>i. map_option snapGroup (window_objects d0 i) = map_option snapGroup (window_objects d i))"
  proof (intro impI)
    assume a: "this = (sourceWindowAppUuid event, sourceWindowName event)
        \<and> \<not> (group_length (groups d (snapGroup w)) > 1
              \<and> compareSnapAndEventWindowArrays localeCompare (groups d (snapGroup w))
                   (sourceGroup event @ [identity w]))"
    then have s: "this = (sourceWindowAppUuid event, sourceWindowName event)"
      and c: "\<not> (group_length (groups d (snapGroup w)) > 1
        \<and> compareSnapAndEventWindowArrays localeCompare (groups d (snapGroup w))
             (sourceGroup event @ [identity w]))"
      by blast+
    note run [OF s]
    also note if_not_P [OF c]
    finally have "handleGroupChanged localeCompare group_length env this event d = (Fulfilled, d0)" .
    with fr(1,6) show "handleGroupChanged localeCompare group_length env this event d = (Fulfilled, d0)
          \<and> groups d0 = groups d
          \<and> (\<forall>i. map_option snapGroup (window_objects d0 i) = map_option snapGroup (window_objects d i))"
      by simp
  qed
  have c4: "consistent_order localeCompare \<longrightarrow>
          (\<forall>members reported.
              mset members = mset (groups d (snapGroup w))
              \<and> mset reported = mset (sourceGroup event @ [identity w]) \<longrightarrow>
              compareSnapAndEventWindowArrays localeCompare members reported
                = compareSnapAndEventWindowArrays localeCompare (groups d (snapGroup w))
                    (sourceGroup event @ [identity w]))"
    using indep by blast
  show ?thesis by (intro conjI) (rule c1, rule c2, rule c3, rule c4)
qed

theorem C7_witness:
  "handleGroupChanged lexicographic length quiet window_A (leave_event ''A'' ''C'') snapped_desktop
     = (Fulfilled, snapped_desktop)
   \<and> map_option snapGroup
       (window_objects
          (snd (handleGroupChanged lexicographic length quiet window_C (leave_event ''C'' ''C'')
                  snapped_desktop)) window_C) = Some 1
   \<and> groups (snd (handleGroupChanged lexicographic length quiet window_C (leave_event ''C'' ''C'')
                  snapped_desktop)) 1 = [window_C]
   \<and> window_C \<notin> set (groups (snd (handleGroupChanged lexicographic length quiet window_C
                  (leave_event ''C'' ''C'') snapped_desktop)) 0)"
proof -
  let ?wA = "existing_window window_A createTemporaryState 0"
  let ?wC = "existing_window window_C createTemporaryState 0"
  let ?d = snapped_desktop
  have sA: "sync_window quiet window_A ?d = (Fulfilled, ?d)"
    by (rule sync_window_quiet [where w = ?wA]) (simp_all add: snapped_objects existing_fields)
  have sC: "sync_window quiet window_C ?d = (Fulfilled, ?d)"
    by (rule sync_window_quiet [where w = ?wC]) (simp_all add: snapped_objects existing_fields)
  have fA: "snapGroup ?wA < next_object ?d" and fC: "snapGroup ?wC < next_object ?d"
    by (simp_all add: existing_fields snapped_fields)
  have iA: "window_A = (uuid (leave_event ''A'' ''C''), name (leave_event ''A'' ''C''))"
    and iC: "window_C = (uuid (leave_event ''C'' ''C''), name (leave_event ''C'' ''C''))"
    by (simp_all add: leave_event_fields window_A_def window_C_def)
  have r: "reason (leave_event n ''C'') = ''leave''" for n
    by (simp add: leave_event_fields)
  have t: "filter (relevant (window_objects ?d (targetWindowAppUuid (leave_event n ''C''),
                                 targetWindowName (leave_event n ''C''))))
             (activeTransactions ?d) = []" for n
    by (simp add: snapped_fields)
  have other: "window_A \<noteq> (sourceWindowAppUuid (leave_event ''A'' ''C''),
                            sourceWindowName (leave_event ''A'' ''C''))"
    by (simp add: leave_event_fields window_A_def)
  have self: "window_C = (sourceWindowAppUuid (leave_event ''C'' ''C''),
                          sourceWindowName (leave_event ''C'' ''C''))
      \<and> length (groups ?d (snapGroup ?wC)) > 1
      \<and> compareSnapAndEventWindowArrays lexicographic (groups ?d (snapGroup ?wC))
           (sourceGroup (leave_event ''C'' ''C'') @ [identity ?wC])"
    using compare_members
    by (simp add: leave_event_fields existing_fields snapped_fields) (simp add: window_C_def)
  from C7_leave_event [OF snapped_objects(1) fA iA r sA t,
         where localeCompare = lexicographic and group_length = length] other
  have a: "handleGroupChanged lexicographic length quiet window_A (leave_event ''A'' ''C'') ?d
             = (Fulfilled, ?d)"
    by blast
  from C7_leave_event [OF snapped_objects(3) fC iC r sC t,
         where localeCompare = lexicographic and group_length = length] self
  have b: "map_option snapGroup
              (window_objects (snd (handleGroupChanged lexicographic length quiet window_C
                 (leave_event ''C'' ''C'') ?d)) window_C) = Some (next_object ?d)
          \<and> groups (snd (handleGroupChanged lexicographic length quiet window_C
                 (leave_event ''C'' ''C'') ?d)) (next_object ?d) = [window_C]
          \<and> window_C \<notin> set (groups (snd (handleGroupChanged lexicographic length quiet window_C
                 (leave_event ''C'' ''C'') ?d)) (snapGroup ?wC))"
    by blast
  from a b show ?thesis by (simp add: snapped_fields existing_fields)
qed

end
